theory Spec2Isabelle
  imports
    Complex_Main
    "HOL-Library.AList"
    "HOL-Library.Char_ord"
    "HOL-Library.List_Lexorder"
    "HOL-Library.Product_Lexorder"
    "HOL-Library.Sublist"
begin

section \<open>Python values used by the miner\<close>

text \<open>
  Python strings are modelled as \<^typ>\<open>string\<close>, one \<^typ>\<open>char\<close> per code point, for
  the code points below 256 (Latin-1). \<open>str.strip\<close> and \<open>str.lower\<close> map such a string to
  such a string. \<open>str.upper\<close> and \<open>str.casefold\<close> may leave the range (the micro sign
  goes to a Greek letter, the y with diaeresis to code point 376, the sharp s to two
  letters), so they return the list of the code points of their result; the program only
  compares these results. Python compares strings code point by code point, which is the
  lexicographic order of \<open>List_Lexorder\<close>. Python tuples compare lexicographically, which
  is the order of \<open>Product_Lexorder\<close>.
\<close>

definition py_isspace :: "char \<Rightarrow> bool" where
  \<comment> \<open>\<open>str.isspace\<close>: TAB, LF, VT, FF, CR, FS, GS, RS, US, the blank, NEL and the no-break space\<close>
  "py_isspace c =
     (let n = (of_char c :: nat) in (9 \<le> n \<and> n \<le> 13) \<or> (28 \<le> n \<and> n \<le> 32) \<or> n = 133 \<or> n = 160)"

definition lstrip :: "string \<Rightarrow> string" where
  "lstrip s = dropWhile py_isspace s"

definition rstrip :: "string \<Rightarrow> string" where
  "rstrip s = rev (dropWhile py_isspace (rev s))"

definition strip :: "string \<Rightarrow> string" where
  "strip s = rstrip (lstrip s)"

definition lower_char :: "char \<Rightarrow> char" where
  \<comment> \<open>the capital letters are A to Z and 192 to 222 without the multiplication sign\<close>
  "lower_char c =
     (let n = (of_char c :: nat) in
      if (65 \<le> n \<and> n \<le> 90) \<or> (192 \<le> n \<and> n \<le> 222 \<and> n \<noteq> 215) then char_of (n + 32) else c)"

definition lower :: "string \<Rightarrow> string" where
  "lower s = map lower_char s"

definition code_points :: "string \<Rightarrow> nat list" where
  "code_points s = map of_char s"

definition upper_char :: "char \<Rightarrow> nat list" where
  "upper_char c =
     (let n = (of_char c :: nat) in
      if (97 \<le> n \<and> n \<le> 122) \<or> (224 \<le> n \<and> n \<le> 254 \<and> n \<noteq> 247) then [n - 32]
      else if n = 181 then [924]
      else if n = 223 then [83, 83]
      else if n = 255 then [376]
      else [n])"

definition upper :: "string \<Rightarrow> nat list" where
  "upper s = concat (map upper_char s)"

definition casefold_char :: "char \<Rightarrow> nat list" where
  "casefold_char c =
     (let n = (of_char c :: nat) in
      if (65 \<le> n \<and> n \<le> 90) \<or> (192 \<le> n \<and> n \<le> 222 \<and> n \<noteq> 215) then [n + 32]
      else if n = 181 then [956]
      else if n = 223 then [115, 115]
      else [n])"

definition casefold :: "string \<Rightarrow> nat list" where
  "casefold s = concat (map casefold_char s)"

definition ALL_GAMES_TOKEN :: string where
  "ALL_GAMES_TOKEN = ''__ALL_GAMES__''"

definition AUTO_GAMES_CHANNEL_SOURCE :: string where
  "AUTO_GAMES_CHANNEL_SOURCE = ''source=auto-games-channel''"

section \<open>Ranking of channels by liveness\<close>

text \<open>
  \<open>KickMinerApp._channel_live_sort_key\<close>. The liveness is \<open>True\<close>, \<open>False\<close> or \<open>None\<close>
  (unknown), modelled as \<^typ>\<open>bool option\<close>.
\<close>

definition channel_live_sort_key :: "bool option \<Rightarrow> int \<Rightarrow> string \<Rightarrow> int \<times> int \<times> nat list" where
  "channel_live_sort_key live viewers slug =
     (let rank = (if live = Some True then 0 else if live = Some False then 1 else 2)
      in (rank, - max 0 viewers, casefold slug))"

section \<open>Selection of games\<close>

text \<open>
  \<open>KickMinerApp._normalize_preferred_games\<close>: the loop that strips the names and drops
  blanks and case-insensitive repetitions, then the three-way result.
\<close>

fun normalize_scan :: "string list \<Rightarrow> nat list set \<Rightarrow> string list \<Rightarrow> string list" where
  "normalize_scan cleaned seen [] = cleaned"
| "normalize_scan cleaned seen (raw # rest) =
     (let game = strip raw in
      if game = [] then normalize_scan cleaned seen rest
      else
        let key = casefold game in
        if key \<in> seen then normalize_scan cleaned seen rest
        else normalize_scan (cleaned @ [game]) (insert key seen) rest)"

definition normalize_preferred_games :: "string list option \<Rightarrow> string list" where
  "normalize_preferred_games values =
     (let cleaned = normalize_scan [] {} (case values of None \<Rightarrow> [] | Some vs \<Rightarrow> vs) in
      if list_ex (\<lambda>game. game = ALL_GAMES_TOKEN) cleaned then [ALL_GAMES_TOKEN]
      else if cleaned \<noteq> [] then sort_key casefold cleaned
      else [ALL_GAMES_TOKEN])"

text \<open>
  \<open>KickMinerApp._preferred_game_filter\<close> stores the normalised list back into
  \<open>_preferred_games_cached\<close> and returns \<open>(mine_all, selected)\<close>; the model returns the
  three of them.
\<close>

definition preferred_game_filter :: "string list \<Rightarrow> string list \<times> bool \<times> nat list set" where
  "preferred_game_filter cached =
     (let normalized = normalize_preferred_games (Some cached);
          mine_all = (ALL_GAMES_TOKEN \<in> set normalized);
          selected = set (map (\<lambda>game. casefold (strip game))
                       (filter (\<lambda>game. game \<noteq> ALL_GAMES_TOKEN \<and> strip game \<noteq> []) normalized))
      in (normalized, mine_all, selected))"

section \<open>JSON values and the conversions applied to them\<close>

text \<open>
  What \<open>json.load\<close> returns, without floating-point numbers (a JSON number with a
  fraction or an exponent is outside the model). A \<open>dict\<close> is an association list read
  with \<open>map_of\<close>.
\<close>

datatype json =
    JNull
  | JBool bool
  | JInt int
  | JStr string
  | JList "json list"
  | JDict "(string \<times> json) list"

datatype py_error = AttributeError | TypeError | ValueError | OverflowError

type_synonym json_dict = "(string \<times> json) list"

definition dict_get :: "json_dict \<Rightarrow> string \<Rightarrow> json" where
  \<comment> \<open>\<open>data.get(key)\<close>: \<open>None\<close> for a missing key\<close>
  "dict_get data k = (case map_of data k of None \<Rightarrow> JNull | Some v \<Rightarrow> v)"

definition dict_get_default :: "json_dict \<Rightarrow> string \<Rightarrow> json \<Rightarrow> json" where
  \<comment> \<open>\<open>data.get(key, default)\<close>\<close>
  "dict_get_default data k dflt = (case map_of data k of None \<Rightarrow> dflt | Some v \<Rightarrow> v)"

fun attr_get :: "json \<Rightarrow> string \<Rightarrow> py_error + json" where
  \<comment> \<open>\<open>x.get(key)\<close> on a value that may not be a dict\<close>
  "attr_get (JDict data) k = Inr (dict_get data k)"
| "attr_get _ k = Inl AttributeError"

fun truthy :: "json \<Rightarrow> bool" where
  "truthy JNull = False"
| "truthy (JBool b) = b"
| "truthy (JInt n) = (n \<noteq> 0)"
| "truthy (JStr s) = (s \<noteq> [])"
| "truthy (JList xs) = (xs \<noteq> [])"
| "truthy (JDict kvs) = (kvs \<noteq> [])"

definition py_or :: "json \<Rightarrow> json \<Rightarrow> json" where
  \<comment> \<open>\<open>x or y\<close>\<close>
  "py_or x y = (if truthy x then x else y)"

fun isinstance_dict :: "json \<Rightarrow> bool" where
  "isinstance_dict (JDict kvs) = True"
| "isinstance_dict _ = False"

fun isinstance_list :: "json \<Rightarrow> bool" where
  "isinstance_list (JList xs) = True"
| "isinstance_list _ = False"

subsection \<open>\<open>str()\<close>\<close>

definition digit_char :: "nat \<Rightarrow> char" where
  "digit_char d = char_of (48 + d)"

fun str_nat :: "nat \<Rightarrow> string" where
  "str_nat n = (if n < 10 then [digit_char n] else str_nat (n div 10) @ [digit_char (n mod 10)])"

definition str_int :: "int \<Rightarrow> string" where
  "str_int i = (if i < 0 then CHR ''-'' # str_nat (nat (- i)) else str_nat (nat i))"

definition hex_char :: "nat \<Rightarrow> char" where
  "hex_char d = (if d < 10 then char_of (48 + d) else char_of (87 + d))"

definition escape_char :: "char \<Rightarrow> char \<Rightarrow> string" where
  \<comment> \<open>one character inside the \<open>repr\<close> of a string quoted with \<open>q\<close>\<close>
  "escape_char q c =
     (let n = (of_char c :: nat) in
      if c = q \<or> c = CHR 0x5C then [CHR 0x5C, c]
      else if n = 9 then [CHR 0x5C, CHR ''t'']
      else if n = 10 then [CHR 0x5C, CHR ''n'']
      else if n = 13 then [CHR 0x5C, CHR ''r'']
      else if n < 32 \<or> (127 \<le> n \<and> n \<le> 160) \<or> n = 173
        then [CHR 0x5C, CHR ''x'', hex_char (n div 16), hex_char (n mod 16)]
      else [c])"

definition repr_str :: "string \<Rightarrow> string" where
  "repr_str s =
     (let q = (if CHR 0x27 \<in> set s \<and> CHR 0x22 \<notin> set s then CHR 0x22 else CHR 0x27)
      in [q] @ concat (map (escape_char q) s) @ [q])"

fun join :: "string \<Rightarrow> string list \<Rightarrow> string" where
  "join sep [] = []"
| "join sep [x] = x"
| "join sep (x # y # ys) = x @ sep @ join sep (y # ys)"

fun py_repr :: "json \<Rightarrow> string"
  and repr_items :: "json list \<Rightarrow> string list"
  and repr_pairs :: "(string \<times> json) list \<Rightarrow> string list" where
  "py_repr JNull = ''None''"
| "py_repr (JBool b) = (if b then ''True'' else ''False'')"
| "py_repr (JInt n) = str_int n"
| "py_repr (JStr s) = repr_str s"
| "py_repr (JList xs) = ''['' @ join '', '' (repr_items xs) @ '']''"
| "py_repr (JDict kvs) = ''{'' @ join '', '' (repr_pairs kvs) @ ''}''"
| "repr_items [] = []"
| "repr_items (x # xs) = py_repr x # repr_items xs"
| "repr_pairs [] = []"
| "repr_pairs (kv # kvs) = (repr_str (fst kv) @ '': '' @ py_repr (snd kv)) # repr_pairs kvs"

fun py_str :: "json \<Rightarrow> string" where
  "py_str (JStr s) = s"
| "py_str v = py_repr v"

subsection \<open>\<open>int()\<close>\<close>

text \<open>
  \<open>int(s)\<close> on a string: blanks around it, one sign, then decimal digits that single
  underscores may separate. The blanks of \<open>int\<close> are those of C (TAB to CR and the blank)
  and the two blanks above 127; the separators FS to US are not among them. (The limit on
  the number of digits of recent interpreters is not modelled.)
\<close>

definition c_isspace :: "char \<Rightarrow> bool" where
  "c_isspace c = (let n = (of_char c :: nat) in (9 \<le> n \<and> n \<le> 13) \<or> n = 32 \<or> n = 133 \<or> n = 160)"

definition is_digit :: "char \<Rightarrow> bool" where
  "is_digit c = (let n = (of_char c :: nat) in 48 \<le> n \<and> n \<le> 57)"

definition digit_val :: "char \<Rightarrow> int" where
  "digit_val c = int (of_char c) - 48"

fun digits_value :: "int \<Rightarrow> string \<Rightarrow> int option" where
  "digits_value acc [] = Some acc"
| "digits_value acc [c] = (if is_digit c then Some (acc * 10 + digit_val c) else None)"
| "digits_value acc (c # d # ds) =
     (if is_digit c then digits_value (acc * 10 + digit_val c) (d # ds)
      else if c = CHR ''_'' \<and> is_digit d then digits_value (acc * 10 + digit_val d) ds
      else None)"

definition parse_digits :: "string \<Rightarrow> int option" where
  "parse_digits s =
     (case s of [] \<Rightarrow> None
      | c # cs \<Rightarrow> if is_digit c then digits_value (digit_val c) cs else None)"

definition int_of_str :: "string \<Rightarrow> int option" where
  "int_of_str s =
     (let t = rev (dropWhile c_isspace (rev (dropWhile c_isspace s))) in
      case t of [] \<Rightarrow> None
      | c # cs \<Rightarrow>
          if c = CHR ''-'' then map_option uminus (parse_digits cs)
          else if c = CHR ''+'' then parse_digits cs
          else parse_digits t)"

fun py_int :: "json \<Rightarrow> py_error + int" where
  "py_int JNull = Inl TypeError"
| "py_int (JBool b) = Inr (if b then 1 else 0)"
| "py_int (JInt n) = Inr n"
| "py_int (JStr s) = (case int_of_str s of None \<Rightarrow> Inl ValueError | Some n \<Rightarrow> Inr n)"
| "py_int (JList xs) = Inl TypeError"
| "py_int (JDict kvs) = Inl TypeError"

text \<open>\<open>kick_models._safe_int\<close>: \<open>TypeError\<close> and \<open>ValueError\<close> give the default.\<close>

definition safe_int :: "json \<Rightarrow> int \<Rightarrow> py_error + int" where
  "safe_int v dflt =
     (if v = JNull then Inr dflt
      else case py_int v of
        Inr n \<Rightarrow> Inr n
      | Inl e \<Rightarrow> if e = TypeError \<or> e = ValueError then Inr dflt else Inl e)"

text \<open>
  \<open>kick_models._safe_float\<close> returns a float, which is not modelled; what is kept is
  whether it raises. \<open>float()\<close> of an integer raises \<open>OverflowError\<close> beyond the range of
  a double; its \<open>TypeError\<close> and \<open>ValueError\<close> are caught.
\<close>

definition safe_float_raises :: "json \<Rightarrow> py_error option" where
  "safe_float_raises v =
     (case v of
        JInt n \<Rightarrow> if 2 ^ 1024 - 2 ^ 970 \<le> \<bar>n\<bar> then Some OverflowError else None
      | _ \<Rightarrow> None)"

subsection \<open>Exceptions and iteration\<close>

definition bind_err :: "py_error + 'a \<Rightarrow> ('a \<Rightarrow> py_error + 'b) \<Rightarrow> py_error + 'b" where
  \<comment> \<open>sequencing: the first exception ends the computation\<close>
  "bind_err m f = (case m of Inl e \<Rightarrow> Inl e | Inr x \<Rightarrow> f x)"

fun map_err :: "('a \<Rightarrow> py_error + 'b) \<Rightarrow> 'a list \<Rightarrow> py_error + 'b list" where
  "map_err f [] = Inr []"
| "map_err f (x # xs) = bind_err (f x) (\<lambda>y. bind_err (map_err f xs) (\<lambda>ys. Inr (y # ys)))"

fun py_iter :: "json \<Rightarrow> py_error + json list" where
  \<comment> \<open>\<open>for x in v\<close>: a list gives its elements, a string its characters, a dict its keys\<close>
  "py_iter (JList xs) = Inr xs"
| "py_iter (JStr s) = Inr (map (\<lambda>c. JStr [c]) s)"
| "py_iter (JDict kvs) = Inr (map (\<lambda>kv. JStr (fst kv)) kvs)"
| "py_iter _ = Inl TypeError"

fun the_dict :: "json \<Rightarrow> json_dict" where
  "the_dict (JDict kvs) = kvs"
| "the_dict _ = []"

section \<open>The records of \<open>kick_models\<close>\<close>

text \<open>
  The fields of \<open>QueueItem\<close> keep their names; those of the other classes carry a
  prefix, because several classes share \<open>id\<close>, \<open>name\<close>, \<open>status\<close>, \<open>url\<close>. The
  floating-point field \<open>progress\<close> of the rewards is left out.
\<close>

record KickChannel =
  ch_slug :: string
  ch_username :: string
  ch_url :: string
  ch_profile_picture :: string

record KickReward =
  r_id :: string
  r_name :: string
  r_required_units :: int
  r_image_url :: string
  r_claimed :: bool

record KickCampaign =
  c_id :: string
  c_name :: string
  c_game :: string
  c_game_slug :: string
  c_game_image :: string
  c_category_id :: "int option"
  c_status :: string
  c_starts_at :: json
  c_ends_at :: json
  c_rewards :: "KickReward list"
  c_channels :: "KickChannel list"
  c_progress_status :: string
  c_progress_units :: int
  c_raw :: json_dict

record KickProgressReward =
  pr_id :: string
  pr_claimed :: bool
  pr_required_units :: int
  pr_name :: string

record KickProgressCampaign =
  p_id :: string
  p_name :: string
  p_status :: string
  p_progress_units :: int
  p_category_name :: string
  p_rewards :: "KickProgressReward list"

record QueueItem =
  url :: string
  minutes_target :: int
  elapsed_seconds :: int
  status :: string
  campaign_id :: "string option"
  campaign_name :: "string option"
  category_id :: "int option"
  "notes" :: string

text \<open>\<open>KickChannel.from_campaign_channel\<close>\<close>

definition from_campaign_channel :: "json_dict \<Rightarrow> py_error + KickChannel option" where
  "from_campaign_channel data =
     (let slug = strip (py_str (py_or (dict_get data ''slug'') (JStr []))) in
      if slug = [] then Inr None
      else
        let user = py_or (dict_get data ''user'') (JDict []) in
        bind_err (attr_get user ''username'') (\<lambda>un.
        bind_err (attr_get user ''profile_picture'') (\<lambda>pp.
          Inr (Some \<lparr>ch_slug = slug,
                     ch_username = py_str (py_or un (JStr slug)),
                     ch_url = ''https://kick.com/'' @ slug,
                     ch_profile_picture = py_str (py_or pp (JStr []))\<rparr>))))"

text \<open>\<open>KickReward.from_api\<close>\<close>

definition KickReward_from_api :: "json_dict \<Rightarrow> py_error + KickReward" where
  "KickReward_from_api data =
     bind_err (safe_int (dict_get data ''required_units'') 0) (\<lambda>units.
       case safe_float_raises (dict_get data ''progress'') of
         Some e \<Rightarrow> Inl e
       | None \<Rightarrow>
           Inr \<lparr>r_id = py_str (py_or (dict_get data ''id'') (JStr [])),
                r_name = py_str (py_or (dict_get data ''name'') (JStr ''Unknown Reward'')),
                r_required_units = units,
                r_image_url =
                  py_str (py_or (py_or (dict_get data ''image_url'') (dict_get data ''image'')) (JStr [])),
                r_claimed = truthy (dict_get_default data ''claimed'' (JBool False))\<rparr>)"

text \<open>
  \<open>KickCampaign.from_api\<close>: the rewards, then the channels, then the fields in the
  order of the constructor call.
\<close>

fun collect_channels :: "json list \<Rightarrow> py_error + KickChannel list" where
  "collect_channels [] = Inr []"
| "collect_channels (channel_data # rest) =
     (if \<not> isinstance_dict channel_data then collect_channels rest
      else
        bind_err (from_campaign_channel (the_dict channel_data)) (\<lambda>channel.
        bind_err (collect_channels rest) (\<lambda>channels.
          Inr (case channel of None \<Rightarrow> channels | Some c \<Rightarrow> c # channels))))"

definition KickCampaign_from_api :: "json_dict \<Rightarrow> py_error + KickCampaign" where
  "KickCampaign_from_api data =
     (let category = py_or (dict_get data ''category'') (JDict []) in
      bind_err (py_iter (py_or (dict_get data ''rewards'') (JList []))) (\<lambda>reward_data.
      bind_err (map_err (\<lambda>r. KickReward_from_api (the_dict r)) (filter isinstance_dict reward_data)) (\<lambda>rewards.
      bind_err (py_iter (py_or (dict_get data ''channels'') (JList []))) (\<lambda>channel_data.
      bind_err (collect_channels channel_data) (\<lambda>channels.
      bind_err (attr_get category ''name'') (\<lambda>cat_name.
      bind_err (attr_get category ''slug'') (\<lambda>cat_slug.
      bind_err (attr_get category ''image_url'') (\<lambda>cat_image.
      bind_err (attr_get category ''id'') (\<lambda>cat_id.
      bind_err (safe_int cat_id 0) (\<lambda>cid.
        Inr \<lparr>c_id = py_str (py_or (dict_get data ''id'') (JStr [])),
             c_name = py_str (py_or (dict_get data ''name'') (JStr ''Unknown Campaign'')),
             c_game = py_str (py_or cat_name (JStr ''Unknown Game'')),
             c_game_slug = py_str (py_or cat_slug (JStr [])),
             c_game_image = py_str (py_or cat_image (JStr [])),
             c_category_id = (if cid = 0 then None else Some cid),
             c_status = py_str (py_or (dict_get data ''status'') (JStr ''unknown'')),
             c_starts_at = dict_get data ''starts_at'',
             c_ends_at = dict_get data ''ends_at'',
             c_rewards = rewards,
             c_channels = channels,
             c_progress_status = ''not_started'',
             c_progress_units = 0,
             c_raw = data\<rparr>))))))))))"

text \<open>\<open>parse_campaigns_response\<close>\<close>

definition parse_campaigns_response :: "json_dict \<Rightarrow> py_error + KickCampaign list" where
  "parse_campaigns_response payload =
     (let data = py_or (dict_get payload ''data'') (JList []) in
      if \<not> isinstance_list data then Inr []
      else
        bind_err (py_iter data) (\<lambda>items.
        bind_err (map_err (\<lambda>item. KickCampaign_from_api (the_dict item)) (filter isinstance_dict items))
          (\<lambda>campaigns. Inr (filter (\<lambda>campaign. c_id campaign \<noteq> []) campaigns))))"

section \<open>Queue items and their persisted form\<close>

definition item_slug :: "QueueItem \<Rightarrow> string" where
  \<comment> \<open>the property \<open>QueueItem.slug\<close>: \<open>url.rstrip("/").split("/")[-1].strip()\<close>\<close>
  "item_slug item =
     strip (rev (takeWhile (\<lambda>c. c \<noteq> CHR ''/'') (dropWhile (\<lambda>c. c = CHR ''/'') (rev (url item)))))"

definition item_done :: "QueueItem \<Rightarrow> bool" where
  \<comment> \<open>the property \<open>QueueItem.done\<close>\<close>
  "item_done item = (minutes_target item > 0 \<and> elapsed_seconds item \<ge> minutes_target item * 60)"

definition json_of_opt_str :: "string option \<Rightarrow> json" where
  "json_of_opt_str v = (case v of None \<Rightarrow> JNull | Some s \<Rightarrow> JStr s)"

definition json_of_opt_int :: "int option \<Rightarrow> json" where
  "json_of_opt_int v = (case v of None \<Rightarrow> JNull | Some n \<Rightarrow> JInt n)"

definition opt_str_of_json :: "json \<Rightarrow> string option" where
  \<comment> \<open>a field declared \<open>str | None\<close>; a JSON value of another type is outside the
      declared type and is read as \<open>None\<close>\<close>
  "opt_str_of_json v = (case v of JStr s \<Rightarrow> Some s | _ \<Rightarrow> None)"

text \<open>\<open>QueueItem.to_dict\<close> is \<open>dataclasses.asdict\<close>: the eight fields in their order.\<close>

definition QueueItem_to_dict :: "QueueItem \<Rightarrow> json_dict" where
  "QueueItem_to_dict item =
     [(''url'', JStr (url item)),
      (''minutes_target'', JInt (minutes_target item)),
      (''elapsed_seconds'', JInt (elapsed_seconds item)),
      (''status'', JStr (status item)),
      (''campaign_id'', json_of_opt_str (campaign_id item)),
      (''campaign_name'', json_of_opt_str (campaign_name item)),
      (''category_id'', json_of_opt_int (category_id item)),
      (''notes'', JStr (notes item))]"

text \<open>\<open>QueueItem.from_dict\<close>\<close>

definition QueueItem_from_dict :: "json_dict \<Rightarrow> py_error + QueueItem" where
  "QueueItem_from_dict data =
     bind_err (safe_int (dict_get data ''minutes'') 0) (\<lambda>minutes.
     bind_err (safe_int (dict_get data ''minutes_target'') minutes) (\<lambda>target.
     bind_err (safe_int (dict_get data ''elapsed'') 0) (\<lambda>elapsed.
     bind_err (safe_int (dict_get data ''elapsed_seconds'') elapsed) (\<lambda>seconds.
     bind_err (safe_int (dict_get data ''category_id'') 0) (\<lambda>cat.
       Inr \<lparr>url = py_str (py_or (dict_get data ''url'') (JStr [])),
            minutes_target = target,
            elapsed_seconds = seconds,
            status = py_str (py_or (dict_get data ''status'') (JStr ''PENDING'')),
            campaign_id = opt_str_of_json (dict_get data ''campaign_id''),
            campaign_name = opt_str_of_json (dict_get data ''campaign_name''),
            category_id = (if cat = 0 then None else Some cat),
            notes = py_str (py_or (dict_get data ''notes'') (JStr []))\<rparr>)))))"

text \<open>
  The queue in \<open>AppConfig\<close>: the entry \<open>queue_items\<close> that \<open>AppConfig.to_dict\<close> writes,
  and the loop of \<open>AppConfig.from_dict\<close> that rebuilds the list (an item whose
  \<open>from_dict\<close> raises is skipped).
\<close>

definition queue_items_to_json :: "QueueItem list \<Rightarrow> json" where
  "queue_items_to_json items = JList (map (\<lambda>item. JDict (QueueItem_to_dict item)) items)"

fun load_items :: "json list \<Rightarrow> QueueItem list" where
  "load_items [] = []"
| "load_items (raw # rest) =
     (if isinstance_dict raw then
        (case QueueItem_from_dict (the_dict raw) of
           Inr item \<Rightarrow> item # load_items rest
         | Inl e \<Rightarrow> load_items rest)
      else load_items rest)"

definition queue_items_from_dict :: "json_dict \<Rightarrow> QueueItem list" where
  "queue_items_from_dict data =
     (let raw_items = py_or (py_or (dict_get data ''queue_items'') (dict_get data ''items'')) (JList []) in
      case raw_items of JList raws \<Rightarrow> load_items raws | _ \<Rightarrow> [])"

section \<open>The cache of channel liveness\<close>

text \<open>
  \<open>KickMinerApp._channel_live_cache\<close> maps a slug to \<open>(live, viewers, timestamp)\<close>.
  Timestamps are readings of \<open>time.time()\<close>, modelled as real numbers; one call reads
  the clock once. The answer of \<open>browser.channel_live_status\<close> for a slug is an
  exception or the value it returns.
\<close>

type_synonym live_cache = "string \<Rightarrow> (bool option \<times> int \<times> real) option"

fun attr_get_default :: "json \<Rightarrow> string \<Rightarrow> json \<Rightarrow> py_error + json" where
  \<comment> \<open>\<open>x.get(key, default)\<close> on a value that may not be a dict\<close>
  "attr_get_default (JDict data) k dflt = Inr (dict_get_default data k dflt)"
| "attr_get_default _ k dflt = Inl AttributeError"

definition query_live :: "py_error + json \<Rightarrow> py_error + (bool \<times> int)" where
  \<comment> \<open>the body of the \<open>try\<close> of \<open>_get_channel_live_snapshot\<close>, up to the store\<close>
  "query_live response =
     bind_err response (\<lambda>info.
     bind_err (attr_get_default info ''live'' (JBool False)) (\<lambda>live_value.
     bind_err (attr_get info ''viewer_count'') (\<lambda>viewers_value.
     bind_err (py_int (py_or viewers_value (JInt 0))) (\<lambda>viewers.
       Inr (truthy live_value, viewers)))))"

definition cached_pair :: "(bool option \<times> int \<times> real) option \<Rightarrow> bool option \<times> int" where
  \<comment> \<open>\<open>(cached[0], cached[1])\<close> if there is an entry, else \<open>(None, 0)\<close>\<close>
  "cached_pair cached = (case cached of Some c \<Rightarrow> (fst c, fst (snd c)) | None \<Rightarrow> (None, 0))"

definition get_channel_live_snapshot ::
  "(string \<Rightarrow> py_error + json) \<Rightarrow> real \<Rightarrow> live_cache \<Rightarrow> string \<Rightarrow> real \<Rightarrow> bool
     \<Rightarrow> live_cache \<times> bool option \<times> int" where
  "get_channel_live_snapshot channel_live_status now cache slug max_age_seconds use_network =
     (let cached = cache slug in
      if (case cached of Some c \<Rightarrow> now - snd (snd c) \<le> max_age_seconds | None \<Rightarrow> False)
      then (cache, cached_pair cached)
      else if \<not> use_network then (cache, cached_pair cached)
      else
        (case query_live (channel_live_status slug) of
           Inr (live, viewers) \<Rightarrow> (cache(slug \<mapsto> (Some live, viewers, now)), Some live, viewers)
         | Inl exc \<Rightarrow> (cache, cached_pair cached)))"

section \<open>The application state\<close>

text \<open>
  The fields of \<open>KickMinerApp\<close> that the queue logic reads and writes, and what it takes
  from outside: the answers of \<open>browser.channel_live_status\<close>, the clock, and whether the
  end date of a campaign (parsed by \<open>_parse_kick_datetime\<close>) has been reached at the
  current UTC time. One run of a function of the application reads the clock once and gets
  one answer for a slug.
\<close>

record app =
  queue_items :: "QueueItem list"
  campaigns :: "KickCampaign list"
  progress :: "KickProgressCampaign list"
  preferred_games_cached :: "string list"
  retry_campaign_hint_id :: "string option"
  retry_campaign_hint_name :: "string option"
  channel_live_cache :: live_cache
  force_switch_urls :: "string set"

record environment =
  live_status_of :: "string \<Rightarrow> py_error + json"
  clock :: real
  ends_at_reached :: "json \<Rightarrow> bool"

definition opt_text :: "string option \<Rightarrow> string" where
  \<comment> \<open>\<open>str(x or "")\<close> for \<open>x\<close> of type \<open>str | None\<close>\<close>
  "opt_text x = (case x of None \<Rightarrow> [] | Some s \<Rightarrow> s)"

definition dict_of :: "('a \<Rightarrow> string) \<Rightarrow> ('a \<Rightarrow> bool) \<Rightarrow> 'a list \<Rightarrow> string \<Rightarrow> 'a option" where
  \<comment> \<open>\<open>{key(x): x for x in xs if keep(x)}\<close>: the last entry of a key stays\<close>
  "dict_of key keep xs = map_of (rev (map (\<lambda>x. (key x, x)) (filter keep xs)))"

definition is_progress_campaign_finished :: "KickProgressCampaign option \<Rightarrow> bool" where
  "is_progress_campaign_finished progress_campaign =
     (case progress_campaign of
        None \<Rightarrow> False
      | Some p \<Rightarrow>
          if p_rewards p \<noteq> [] then list_all pr_claimed (p_rewards p)
          else lower (strip (p_status p)) \<in> {''claimed'', ''completed'', ''finished'', ''done''})"

definition resolve_item_progress_campaign ::
  "QueueItem \<Rightarrow> (string \<Rightarrow> KickProgressCampaign option) \<Rightarrow> (string \<Rightarrow> KickProgressCampaign option)
     \<Rightarrow> KickProgressCampaign option" where
  "resolve_item_progress_campaign item progress_by_id progress_by_name =
     (let progress_campaign =
            (if opt_text (campaign_id item) \<noteq> [] then progress_by_id (opt_text (campaign_id item)) else None)
      in if progress_campaign = None \<and> opt_text (campaign_name item) \<noteq> []
         then progress_by_name (lower (strip (opt_text (campaign_name item))))
         else progress_campaign)"

definition resolve_queue_item_campaign ::
  "QueueItem \<Rightarrow> (string \<Rightarrow> KickCampaign option) \<Rightarrow> (string \<Rightarrow> KickCampaign option)
     \<Rightarrow> KickCampaign option" where
  "resolve_queue_item_campaign item campaign_by_id campaign_by_name =
     (let campaign =
            (if opt_text (campaign_id item) \<noteq> [] then campaign_by_id (opt_text (campaign_id item)) else None)
      in if campaign = None \<and> opt_text (campaign_name item) \<noteq> []
         then campaign_by_name (lower (strip (opt_text (campaign_name item))))
         else campaign)"

definition status_token :: "string \<Rightarrow> string" where
  \<comment> \<open>\<open>str(s or "").strip().lower().replace(" ", "_")\<close>\<close>
  "status_token s = map (\<lambda>c. if c = CHR '' '' then CHR ''_'' else c) (lower (strip s))"

definition is_campaign_expired :: "environment \<Rightarrow> KickCampaign option \<Rightarrow> bool" where
  "is_campaign_expired env campaign =
     (case campaign of
        None \<Rightarrow> False
      | Some c \<Rightarrow>
          let status_values = [status_token (c_status c), status_token (c_progress_status c)] in
          if list_ex (\<lambda>v. v \<in> {''expired'', ''ended'', ''closed'', ''past''})
               (filter (\<lambda>v. v \<noteq> []) status_values)
          then True
          else ends_at_reached env (c_ends_at c))"

definition is_auto_games_channel_item :: "QueueItem \<Rightarrow> bool" where
  "is_auto_games_channel_item item = sublist AUTO_GAMES_CHANNEL_SOURCE (notes item)"

definition build_auto_games_item_notes :: "KickCampaign \<Rightarrow> KickChannel \<Rightarrow> int \<Rightarrow> string" where
  "build_auto_games_item_notes campaign channel viewers =
     AUTO_GAMES_CHANNEL_SOURCE @ '' | '' @ ''game='' @ c_game campaign @ '' | auto='' @ ch_slug channel
       @ '' ('' @ str_int (max 0 viewers) @ '' viewers)''"

section \<open>The preferred channel of a campaign\<close>

text \<open>\<open>KickMinerApp._pick_preferred_channel_for_campaign\<close>: the loop, then the result.\<close>

fun pick_loop ::
  "environment \<Rightarrow> bool \<Rightarrow> KickChannel list \<Rightarrow> live_cache
     \<Rightarrow> KickChannel option \<Rightarrow> int \<Rightarrow> KickChannel option \<Rightarrow> int
     \<Rightarrow> live_cache \<times> KickChannel option \<times> int \<times> KickChannel option \<times> int" where
  "pick_loop env use_network [] cache best_live best_live_viewers fallback fallback_viewers =
     (cache, best_live, best_live_viewers, fallback, fallback_viewers)"
| "pick_loop env use_network (channel # rest) cache best_live best_live_viewers fallback fallback_viewers =
     (case get_channel_live_snapshot (live_status_of env) (clock env) cache (ch_slug channel) 45 use_network of
        (cache', live, viewers) \<Rightarrow>
          let fb = (if fallback = None \<or> viewers > fallback_viewers
                    then (Some channel, viewers) else (fallback, fallback_viewers));
              bl = (if live = Some True \<and> viewers \<ge> best_live_viewers
                    then (Some channel, viewers) else (best_live, best_live_viewers))
          in pick_loop env use_network rest cache' (fst bl) (snd bl) (fst fb) (snd fb))"

definition pick_preferred_channel_for_campaign ::
  "environment \<Rightarrow> live_cache \<Rightarrow> KickCampaign \<Rightarrow> bool
     \<Rightarrow> live_cache \<times> KickChannel option \<times> bool \<times> int" where
  "pick_preferred_channel_for_campaign env cache campaign use_network =
     (if c_channels campaign = [] then (cache, None, False, 0)
      else
        (case pick_loop env use_network (c_channels campaign) cache None (- 1) None (- 1) of
           (cache', best_live, best_live_viewers, fallback, fallback_viewers) \<Rightarrow>
             (case best_live of
                Some b \<Rightarrow> (cache', Some b, True, max 0 best_live_viewers)
              | None \<Rightarrow>
                  (case fallback of
                     Some f \<Rightarrow> (cache', Some f, False, max 0 fallback_viewers)
                   | None \<Rightarrow> (cache', None, False, 0)))))"

definition set_item_channel_for_campaign ::
  "environment \<Rightarrow> live_cache \<Rightarrow> QueueItem \<Rightarrow> KickCampaign option \<Rightarrow> bool
     \<Rightarrow> live_cache \<times> QueueItem \<times> bool \<times> int" where
  "set_item_channel_for_campaign env cache item campaign use_network =
     (case campaign of
        None \<Rightarrow> (cache, item, False, 0)
      | Some c \<Rightarrow>
          (case pick_preferred_channel_for_campaign env cache c use_network of
             (cache', preferred, is_live, viewers) \<Rightarrow>
               (case preferred of
                  None \<Rightarrow> (cache', item, False, 0)
                | Some p \<Rightarrow>
                    (cache',
                     item\<lparr>url := ch_url p,
                          campaign_id := Some (c_id c),
                          campaign_name := Some (c_name c),
                          category_id := c_category_id c,
                          notes := ''game='' @ c_game c @ '' | auto='' @ ch_slug p
                                     @ '' ('' @ str_int viewers @ '' viewers)''\<rparr>,
                     is_live, viewers))))"

section \<open>Selection of the next queue item\<close>

text \<open>
  \<open>KickMinerApp.get_next_queue_item\<close>. The items of the queue are objects that the loop
  changes in place; the model names them by their positions in \<open>queue_items\<close>, iterates
  over a list of positions and returns the position of the chosen item.
\<close>

record selection =
  auto_filter :: bool
  selected_games :: "nat list set"
  campaign_by_id :: "string \<Rightarrow> KickCampaign option"
  campaign_by_name :: "string \<Rightarrow> KickCampaign option"
  progress_by_id :: "string \<Rightarrow> KickProgressCampaign option"
  progress_by_name :: "string \<Rightarrow> KickProgressCampaign option"

definition selection_of :: "app \<Rightarrow> selection" where
  \<comment> \<open>the filter and the four lookup maps built at the start of the function\<close>
  "selection_of a =
     (case preferred_game_filter (preferred_games_cached a) of
        (normalized, mine_all, selected) \<Rightarrow>
          \<lparr>auto_filter = (\<not> mine_all \<and> selected \<noteq> {}),
           selected_games = selected,
           campaign_by_id = dict_of c_id (\<lambda>c. c_id c \<noteq> []) (campaigns a),
           campaign_by_name = dict_of (\<lambda>c. lower (strip (c_name c))) (\<lambda>c. strip (c_name c) \<noteq> []) (campaigns a),
           progress_by_id = dict_of p_id (\<lambda>p. p_id p \<noteq> []) (progress a),
           progress_by_name = dict_of (\<lambda>p. lower (strip (p_name p))) (\<lambda>p. strip (p_name p) \<noteq> []) (progress a)\<rparr>)"

definition hint_matches :: "string \<Rightarrow> string \<Rightarrow> QueueItem \<Rightarrow> bool" where
  "hint_matches hint_id hint_name item =
     (let item_id = strip (opt_text (campaign_id item));
          item_name = lower (strip (opt_text (campaign_name item)))
      in (hint_id \<noteq> [] \<and> item_id = hint_id) \<or> (hint_name \<noteq> [] \<and> item_name = hint_name))"

definition ordered_items ::
  "string option \<Rightarrow> string option \<Rightarrow> QueueItem list \<Rightarrow> nat list \<times> string option \<times> string option" where
  \<comment> \<open>the positions in the order of iteration, and the two hints afterwards\<close>
  "ordered_items retry_id retry_name queue =
     (let hint_id = strip (opt_text retry_id);
          hint_name = lower (strip (opt_text retry_name));
          positions = [0..<length queue]
      in if hint_id \<noteq> [] \<or> hint_name \<noteq> [] then
           let preferred_items = filter (\<lambda>i. hint_matches hint_id hint_name (queue ! i)) positions;
               other_items = filter (\<lambda>i. \<not> hint_matches hint_id hint_name (queue ! i)) positions
           in if preferred_items \<noteq> [] then (preferred_items @ other_items, retry_id, retry_name)
              else (positions, None, None)
         else (positions, retry_id, retry_name))"

text \<open>
  The body of the loop, in three parts. \<open>finalize_item\<close> is the marking of an item as
  \<open>FINISHED\<close> or \<open>EXPIRED\<close> (with the reset of \<open>STOPPED\<close>); it returns the item, the
  campaign it resolved, and whether the loop goes on to the next item.
\<close>

definition finalize_item :: "environment \<Rightarrow> selection \<Rightarrow> QueueItem \<Rightarrow> QueueItem \<times> KickCampaign option \<times> bool" where
  "finalize_item env sel item =
     (if minutes_target item > 0 \<and> item_done item then (item\<lparr>status := ''FINISHED''\<rparr>, None, True)
      else
        let progress_campaign = resolve_item_progress_campaign item (progress_by_id sel) (progress_by_name sel);
            item1 = (if is_progress_campaign_finished progress_campaign
                     then item\<lparr>status := ''FINISHED''\<rparr> else item)
        in if status item1 \<in> {''FINISHED'', ''EXPIRED''} then (item1, None, True)
           else
             let item2 = (if status item1 = ''STOPPED'' then item1\<lparr>status := ''PENDING''\<rparr> else item1);
                 campaign = resolve_queue_item_campaign item2 (campaign_by_id sel) (campaign_by_name sel)
             in if is_campaign_expired env campaign
                then (item2\<lparr>status := ''EXPIRED'', notes := ''campaign expired''\<rparr>, campaign, True)
                else (item2, campaign, False))"

definition skipped_by_game_filter :: "selection \<Rightarrow> QueueItem \<Rightarrow> KickCampaign option \<Rightarrow> bool" where
  "skipped_by_game_filter sel item campaign =
     (auto_filter sel \<and> (opt_text (campaign_id item) \<noteq> [] \<or> opt_text (campaign_name item) \<noteq> [])
      \<and> (case campaign of
            None \<Rightarrow> False
          | Some c \<Rightarrow>
              let game_name = casefold (strip (c_game c)) in
              game_name \<noteq> [] \<and> game_name \<notin> selected_games sel))"

definition probe_item ::
  "environment \<Rightarrow> live_cache \<Rightarrow> QueueItem \<Rightarrow> KickCampaign option \<Rightarrow> live_cache \<times> QueueItem \<times> bool \<times> int" where
  "probe_item env cache item campaign =
     (if is_auto_games_channel_item item then
        (case get_channel_live_snapshot (live_status_of env) (clock env) cache (item_slug item) 30 True of
           (cache', live_snapshot, viewers) \<Rightarrow> (cache', item, live_snapshot = Some True, viewers))
      else set_item_channel_for_campaign env cache item campaign True)"

text \<open>
  What the loop requires of an item to examine its channel: after the marking, a status
  that is neither \<open>FINISHED\<close> nor \<open>EXPIRED\<close>, and no skip by the filter of games.
\<close>

definition eligible :: "environment \<Rightarrow> selection \<Rightarrow> QueueItem \<Rightarrow> bool" where
  "eligible env sel item =
     (case finalize_item env sel item of
        (item', campaign, finished) \<Rightarrow>
          status item' \<notin> {''FINISHED'', ''EXPIRED''} \<and> \<not> skipped_by_game_filter sel item' campaign)"

datatype examined = Skipped | Candidate bool int

definition examine_item ::
  "environment \<Rightarrow> selection \<Rightarrow> live_cache \<Rightarrow> QueueItem \<Rightarrow> live_cache \<times> QueueItem \<times> examined" where
  "examine_item env sel cache item =
     (case finalize_item env sel item of
        (item', campaign, finished) \<Rightarrow>
          if finished then (cache, item', Skipped)
          else if skipped_by_game_filter sel item' campaign then (cache, item', Skipped)
          else
            (case probe_item env cache item' campaign of
               (cache', item'', is_live, viewers) \<Rightarrow> (cache', item'', Candidate is_live viewers)))"

fun scan_items ::
  "environment \<Rightarrow> selection \<Rightarrow> nat list \<Rightarrow> QueueItem list \<Rightarrow> live_cache \<Rightarrow> nat option \<Rightarrow> int
     \<Rightarrow> QueueItem list \<times> live_cache \<times> nat option" where
  "scan_items env sel [] queue cache fallback_item fallback_live_viewers = (queue, cache, fallback_item)"
| "scan_items env sel (i # rest) queue cache fallback_item fallback_live_viewers =
     (case examine_item env sel cache (queue ! i) of
        (cache', item', outcome) \<Rightarrow>
          (case outcome of
             Skipped \<Rightarrow> scan_items env sel rest (queue[i := item']) cache' fallback_item fallback_live_viewers
           | Candidate is_live viewers \<Rightarrow>
               if is_live then (queue[i := item'], cache', Some i)
               else if fallback_item = None \<or> viewers > fallback_live_viewers
                 then scan_items env sel rest (queue[i := item']) cache' (Some i) viewers
                 else scan_items env sel rest (queue[i := item']) cache' fallback_item fallback_live_viewers))"

definition get_next_queue_item :: "environment \<Rightarrow> app \<Rightarrow> app \<times> nat option" where
  "get_next_queue_item env a =
     (case ordered_items (retry_campaign_hint_id a) (retry_campaign_hint_name a) (queue_items a) of
        (positions, hint_id', hint_name') \<Rightarrow>
          (case scan_items env (selection_of a) positions (queue_items a) (channel_live_cache a) None (- 1) of
             (queue', cache', chosen) \<Rightarrow>
               (a\<lparr>queue_items := queue',
                  preferred_games_cached := fst (preferred_game_filter (preferred_games_cached a)),
                  retry_campaign_hint_id := hint_id',
                  retry_campaign_hint_name := hint_name',
                  channel_live_cache := cache'\<rparr>,
                chosen)))"

section \<open>Discovery of channels for the selected games\<close>

text \<open>
  \<open>KickMinerApp._auto_queue_selected_games\<close>. First the dictionary \<open>desired_by_url\<close>, an
  association list in insertion order (a later, better row of a URL takes the place of
  the earlier one), then its rows sorted by their key.
\<close>

record desired_row =
  row_campaign :: KickCampaign
  row_channel :: KickChannel
  row_live :: "bool option"
  row_viewers :: int
  row_sort_key :: "int \<times> int \<times> nat list"

definition url_or_default :: "KickChannel \<Rightarrow> string \<Rightarrow> string" where
  \<comment> \<open>\<open>channel.url or f"https://kick.com/{slug}"\<close>\<close>
  "url_or_default channel slug = (if ch_url channel \<noteq> [] then ch_url channel else ''https://kick.com/'' @ slug)"

fun desired_channels ::
  "environment \<Rightarrow> KickCampaign \<Rightarrow> KickChannel list \<Rightarrow> live_cache \<Rightarrow> (string \<times> desired_row) list
     \<Rightarrow> live_cache \<times> (string \<times> desired_row) list" where
  "desired_channels env campaign [] cache desired_by_url = (cache, desired_by_url)"
| "desired_channels env campaign (channel # rest) cache desired_by_url =
     (let slug = strip (ch_slug channel) in
      if slug = [] then desired_channels env campaign rest cache desired_by_url
      else
        let u = strip (url_or_default channel slug) in
        if u = [] then desired_channels env campaign rest cache desired_by_url
        else
          (case get_channel_live_snapshot (live_status_of env) (clock env) cache slug 45 True of
             (cache', live, viewers) \<Rightarrow>
               let key = channel_live_sort_key live viewers slug;
                   row = \<lparr>row_campaign = campaign, row_channel = channel, row_live = live,
                          row_viewers = viewers, row_sort_key = key\<rparr>;
                   better = (case map_of desired_by_url u of
                               None \<Rightarrow> True
                             | Some previous \<Rightarrow> key < row_sort_key previous)
               in desired_channels env campaign rest cache'
                    (if better then AList.update u row desired_by_url else desired_by_url)))"

fun desired_campaigns ::
  "environment \<Rightarrow> bool \<Rightarrow> nat list set \<Rightarrow> KickCampaign list \<Rightarrow> live_cache \<Rightarrow> (string \<times> desired_row) list
     \<Rightarrow> live_cache \<times> (string \<times> desired_row) list" where
  "desired_campaigns env mine_all selected [] cache desired_by_url = (cache, desired_by_url)"
| "desired_campaigns env mine_all selected (campaign # rest) cache desired_by_url =
     (let game_key = casefold (strip (c_game campaign)) in
      if \<not> mine_all \<and> game_key \<notin> selected
        then desired_campaigns env mine_all selected rest cache desired_by_url
      else if is_campaign_expired env (Some campaign)
        then desired_campaigns env mine_all selected rest cache desired_by_url
      else
        (case desired_channels env campaign (c_channels campaign) cache desired_by_url of
           (cache', desired_by_url') \<Rightarrow> desired_campaigns env mine_all selected rest cache' desired_by_url'))"

definition desired_rows :: "environment \<Rightarrow> app \<Rightarrow> live_cache \<times> desired_row list" where
  \<comment> \<open>the cache after the snapshots, and the list \<open>ordered\<close>\<close>
  "desired_rows env a =
     (case preferred_game_filter (preferred_games_cached a) of
        (normalized, mine_all, selected) \<Rightarrow>
          (case desired_campaigns env mine_all selected (campaigns a) (channel_live_cache a) [] of
             (cache', desired_by_url) \<Rightarrow> (cache', sort_key row_sort_key (map snd desired_by_url))))"

definition row_url :: "desired_row \<Rightarrow> string" where
  \<comment> \<open>the URL under which the second part looks a row up in the queue\<close>
  "row_url row = url_or_default (row_channel row) (ch_slug (row_channel row))"

text \<open>
  The second part changes items of the queue in place and builds \<open>final_queue\<close> from
  them and from new items. An object of the queue is named by its position in
  \<open>queue_items\<close>; \<open>store\<close> holds the current state of these objects.
\<close>

datatype item_ref = Existing nat | Fresh QueueItem

definition existing_by_url :: "QueueItem list \<Rightarrow> string \<Rightarrow> nat option" where
  \<comment> \<open>the first item of each non-empty URL\<close>
  "existing_by_url queue = map_of (filter (\<lambda>p. fst p \<noteq> []) (zip (map url queue) [0..<length queue]))"

record reconciliation =
  store :: "QueueItem list"
  added :: nat
  updated :: nat
  removed :: nat
  ordered_urls :: "string set"
  final_queue :: "item_ref list"

definition fresh_item :: "desired_row \<Rightarrow> QueueItem" where
  "fresh_item row =
     \<lparr>url = row_url row, minutes_target = 0, elapsed_seconds = 0, status = ''PENDING'',
      campaign_id = Some (c_id (row_campaign row)),
      campaign_name = Some (c_name (row_campaign row)),
      category_id = c_category_id (row_campaign row),
      notes = build_auto_games_item_notes (row_campaign row) (row_channel row) (row_viewers row)\<rparr>"

definition relink_item :: "desired_row \<Rightarrow> QueueItem \<Rightarrow> QueueItem" where
  \<comment> \<open>the assignments to an item that is already in the queue\<close>
  "relink_item row existing =
     existing\<lparr>campaign_id := Some (c_id (row_campaign row)),
              campaign_name := Some (c_name (row_campaign row)),
              category_id := c_category_id (row_campaign row),
              notes := build_auto_games_item_notes (row_campaign row) (row_channel row) (row_viewers row),
              status := (if status existing = ''EXPIRED'' then ''PENDING'' else status existing)\<rparr>"

definition linkage :: "QueueItem \<Rightarrow> string option \<times> string option \<times> int option \<times> string \<times> string" where
  \<comment> \<open>the tuples \<open>before\<close> and \<open>after\<close>\<close>
  "linkage item = (campaign_id item, campaign_name item, category_id item, notes item, status item)"

definition reconcile_row :: "(string \<Rightarrow> nat option) \<Rightarrow> reconciliation \<Rightarrow> desired_row \<Rightarrow> reconciliation" where
  "reconcile_row by_url st row =
     (case by_url (row_url row) of
        None \<Rightarrow>
          st\<lparr>added := added st + 1,
             ordered_urls := insert (row_url row) (ordered_urls st),
             final_queue := final_queue st @ [Fresh (fresh_item row)]\<rparr>
      | Some i \<Rightarrow>
          let existing = store st ! i;
              existing' = relink_item row existing
          in st\<lparr>store := (store st)[i := existing'],
                updated := (if linkage existing' \<noteq> linkage existing then updated st + 1 else updated st),
                ordered_urls := insert (row_url row) (ordered_urls st),
                final_queue := final_queue st @ [Existing i]\<rparr>)"

definition keep_item :: "reconciliation \<Rightarrow> nat \<Rightarrow> reconciliation" where
  \<comment> \<open>the second loop, at the item of position \<open>i\<close>\<close>
  "keep_item st i =
     (let item = store st ! i in
      if url item \<in> ordered_urls st then st
      else if is_auto_games_channel_item item then st\<lparr>removed := removed st + 1\<rparr>
      else st\<lparr>final_queue := final_queue st @ [Existing i]\<rparr>)"

definition reconcile :: "QueueItem list \<Rightarrow> desired_row list \<Rightarrow> reconciliation" where
  "reconcile queue rows =
     foldl keep_item
       (foldl (reconcile_row (existing_by_url queue))
          \<lparr>store = queue, added = 0, updated = 0, removed = 0, ordered_urls = {}, final_queue = []\<rparr> rows)
       [0..<length queue]"

definition deref :: "QueueItem list \<Rightarrow> item_ref \<Rightarrow> QueueItem" where
  "deref objects r = (case r of Existing i \<Rightarrow> objects ! i | Fresh item \<Rightarrow> item)"

definition order_or_size_changed :: "item_ref list \<Rightarrow> nat \<Rightarrow> bool" where
  \<comment> \<open>the lengths differ, or some position holds another object than before\<close>
  "order_or_size_changed final n =
     (length final \<noteq> n \<or> list_ex (\<lambda>p. fst p \<noteq> Existing (snd p)) (zip final [0..<n]))"

text \<open>
  The whole function: the application afterwards and the reconciliation (its counters
  are those of the summary line). The two guards at the start leave the queue alone.
\<close>

definition untouched :: "QueueItem list \<Rightarrow> reconciliation" where
  "untouched queue =
     \<lparr>store = queue, added = 0, updated = 0, removed = 0, ordered_urls = {},
      final_queue = map Existing [0..<length queue]\<rparr>"

definition auto_queue_selected_games :: "environment \<Rightarrow> app \<Rightarrow> app \<times> reconciliation" where
  "auto_queue_selected_games env a =
     (case preferred_game_filter (preferred_games_cached a) of
        (normalized, mine_all, selected) \<Rightarrow>
          if campaigns a = [] then (a\<lparr>preferred_games_cached := normalized\<rparr>, untouched (queue_items a))
          else if \<not> mine_all \<and> selected = {}
            then (a\<lparr>preferred_games_cached := normalized\<rparr>, untouched (queue_items a))
          else
            (case desired_rows env a of
               (cache', ordered) \<Rightarrow>
                 let st = reconcile (queue_items a) ordered in
                 (a\<lparr>preferred_games_cached := normalized,
                    channel_live_cache := cache',
                    queue_items :=
                      (if order_or_size_changed (final_queue st) (length (queue_items a))
                       then map (deref (store st)) (final_queue st)
                       else store st)\<rparr>,
                  st)))"

section \<open>The worker and the messages it posts\<close>

text \<open>
  The worker thread never changes the queue itself: \<open>post_update_item\<close>,
  \<open>post_rotate_item\<close> and the other \<open>post_\<close> methods put a message on \<open>ui_queue\<close>, and
  \<open>_pump_ui_queue\<close> applies the messages in their order. The set of forced switches is
  shared under a lock.
\<close>

datatype ui_message =
    Update_item string "string option" "string option"
  | Increment_elapsed string int
  | Rotate_item string
  | Set_retry_campaign_hint "string option" "string option"
  | Log_line string
  | Save_config

definition request_force_channel_switch :: "string set \<Rightarrow> string \<Rightarrow> string set" where
  "request_force_channel_switch forced u =
     (let target = strip u in if target = [] then forced else insert target forced)"

definition consume_force_channel_switch :: "string set \<Rightarrow> string \<Rightarrow> string set \<times> bool" where
  "consume_force_channel_switch forced u =
     (let target = strip u in
      if target = [] then (forced, False)
      else if target \<in> forced then (forced - {target}, True)
      else (forced, False))"

text \<open>
  One iteration of the \<open>while\<close> loop of \<open>QueueWorker._process_item\<close>, entered with the stop
  event not set. \<open>u\<close> and \<open>slug\<close> are the URL and the slug read when the item was opened;
  \<open>item\<close> is the item as the worker sees it in this iteration. The answer of the live
  check is the text of the exception it raised, or the value it returned. The iteration
  returns a result, goes on with new timers, or lets an exception escape. The calls to
  the browser (the tweaks of the page, the claim of the drops) and the pauses are left
  out. A character above 127 in a note stands as the \<^typ>\<open>char\<close> of its code point.
\<close>

datatype watch_outcome = Returned string | Continues real real | Raised py_error

definition live_check ::
  "string + json \<Rightarrow> QueueItem \<Rightarrow> string \<Rightarrow> string \<Rightarrow> py_error + ui_message list \<times> string option" where
  \<comment> \<open>the messages of the poll, and the result if the poll ends the loop\<close>
  "live_check answer item u slug =
     (case answer of
        Inl exc \<Rightarrow>
          Inr ([Update_item u (Some ''RETRY'') (Some (''error live check: '' @ exc)),
                Log_line (''Live check error ('' @ slug @ ''): '' @ exc)], Some ''retry'')
      | Inr live_info \<Rightarrow>
          bind_err (attr_get_default live_info ''live'' (JBool False)) (\<lambda>live.
            if \<not> truthy live then
              Inr ([Update_item u (Some ''RETRY'') (Some ''offline''),
                    Log_line (''Canal offline: '' @ slug)], Some ''retry'')
            else
              bind_err (attr_get live_info ''category_id'') (\<lambda>live_category.
              bind_err (if category_id item \<noteq> None \<and> category_id item \<noteq> Some 0 \<and> truthy live_category
                        then bind_err (py_int live_category) (\<lambda>c. Inr (Some c \<noteq> category_id item))
                        else Inr False) (\<lambda>mismatch.
                if mismatch then
                  Inr ([Update_item u (Some ''WRONG_CATEGORY'')
                          (Some (''cat '' @ py_str live_category @ '' != '' @ py_repr (json_of_opt_int (category_id item)))),
                        Log_line (''Canal en categor'' @ [CHR 0xED] @ ''a distinta ('' @ slug @ ''): '' @ py_str live_category
                                    @ '' != '' @ py_repr (json_of_opt_int (category_id item)))],
                       Some ''retry'')
                else
                  bind_err (attr_get_default live_info ''viewer_count'' (JInt 0)) (\<lambda>viewers.
                    Inr ([Update_item u (Some ''LIVE'') (Some (''viewers='' @ py_str viewers))], None))))))"

definition watch_iteration ::
  "string + json \<Rightarrow> real \<Rightarrow> int \<Rightarrow> int \<Rightarrow> string set \<Rightarrow> QueueItem \<Rightarrow> string \<Rightarrow> string \<Rightarrow> real \<Rightarrow> real
     \<Rightarrow> string set \<times> ui_message list \<times> watch_outcome" where
  "watch_iteration answer t poll_interval_seconds watch_tick_seconds forced item u slug next_poll next_tick =
     (let poll_every = max 5 poll_interval_seconds;
          tick_seconds = max 30 watch_tick_seconds
      in
      case consume_force_channel_switch forced u of
        (forced', True) \<Rightarrow>
          (forced',
           [Update_item u (Some ''RETRY'') (Some ''cambio manual de canal''),
            Log_line (''Cambio manual solicitado: '' @ slug)],
           Returned ''retry'')
      | (forced', False) \<Rightarrow>
          if item_done item \<or> upper (status item) \<in> {code_points ''FINISHED'', code_points ''EXPIRED''} then
            (if upper (status item) = code_points ''EXPIRED''
             then (forced', [Update_item u (Some ''EXPIRED'') (Some (''campa'' @ [CHR 0xF1] @ ''a caducada''))],
                   Returned ''finished'')
             else (forced', [Update_item u (Some ''FINISHED'') (Some ''drops completados'')], Returned ''finished''))
          else
            (case (if t \<ge> next_poll then live_check answer item u slug else Inr ([], None)) of
               Inl e \<Rightarrow> (forced', [], Raised e)
             | Inr (polled, Some result) \<Rightarrow> (forced', polled, Returned result)
             | Inr (polled, None) \<Rightarrow>
                 let next_poll' = (if t \<ge> next_poll then t + real_of_int poll_every else next_poll) in
                 if t \<ge> next_tick
                 then (forced',
                       polled @ [Increment_elapsed u tick_seconds, Update_item u (Some ''LIVE'') None],
                       Continues next_poll' (t + real_of_int tick_seconds))
                 else (forced', polled, Continues next_poll' next_tick)))"

definition after_process_item :: "string \<Rightarrow> QueueItem \<Rightarrow> ui_message list" where
  \<comment> \<open>\<open>QueueWorker._run_loop\<close>, after \<open>_process_item\<close> has returned \<open>result\<close>\<close>
  "after_process_item result item =
     (if result = ''retry''
      then [Set_retry_campaign_hint (campaign_id item) (campaign_name item), Rotate_item (url item)]
      else [])"

section \<open>The handlers of the messages\<close>

text \<open>
  Every handler that changes the queue ends with \<open>_refresh_queue_tree\<close>, which, besides
  redrawing the table, marks each item of an expired campaign \<open>EXPIRED\<close> and each item of
  a fully claimed campaign \<open>FINISHED\<close>.
\<close>

definition refresh_item :: "environment \<Rightarrow> selection \<Rightarrow> QueueItem \<Rightarrow> QueueItem" where
  "refresh_item env sel item =
     (let campaign = resolve_queue_item_campaign item (campaign_by_id sel) (campaign_by_name sel);
          item1 = (if is_campaign_expired env campaign then item\<lparr>status := ''EXPIRED''\<rparr> else item);
          progress_campaign = resolve_item_progress_campaign item1 (progress_by_id sel) (progress_by_name sel)
      in if is_progress_campaign_finished progress_campaign then item1\<lparr>status := ''FINISHED''\<rparr> else item1)"

definition refresh_queue_tree :: "environment \<Rightarrow> app \<Rightarrow> app" where
  "refresh_queue_tree env a = a\<lparr>queue_items := map (refresh_item env (selection_of a)) (queue_items a)\<rparr>"

definition find_item_by_url :: "QueueItem list \<Rightarrow> string \<Rightarrow> nat option" where
  \<comment> \<open>the position of the first item with this URL\<close>
  "find_item_by_url queue u = map_of (zip (map url queue) [0..<length queue]) u"

definition ui_update_item :: "environment \<Rightarrow> app \<Rightarrow> string \<Rightarrow> string option \<Rightarrow> string option \<Rightarrow> app" where
  "ui_update_item env a u new_status new_notes =
     (case find_item_by_url (queue_items a) u of
        None \<Rightarrow> a
      | Some i \<Rightarrow>
          let item = queue_items a ! i;
              item1 = (case new_status of None \<Rightarrow> item | Some s \<Rightarrow> item\<lparr>status := s\<rparr>);
              item2 = (case new_notes of None \<Rightarrow> item1 | Some n \<Rightarrow> item1\<lparr>notes := n\<rparr>);
              item3 = (if item_done item2 \<and> status item2 \<noteq> ''FINISHED''
                       then item2\<lparr>status := ''FINISHED''\<rparr> else item2);
              hint_id = opt_text (retry_campaign_hint_id a);
              hint_name = opt_text (retry_campaign_hint_name a);
              item_id = opt_text (campaign_id item3);
              item_name = lower (strip (opt_text (campaign_name item3)));
              clear = (status item3 \<in> {''FINISHED'', ''EXPIRED''}
                       \<and> ((hint_id \<noteq> [] \<and> item_id = hint_id) \<or> (hint_name \<noteq> [] \<and> item_name = hint_name)))
          in refresh_queue_tree env
               (a\<lparr>queue_items := (queue_items a)[i := item3],
                  retry_campaign_hint_id := (if clear then None else retry_campaign_hint_id a),
                  retry_campaign_hint_name := (if clear then None else retry_campaign_hint_name a)\<rparr>))"

definition ui_increment_elapsed :: "environment \<Rightarrow> app \<Rightarrow> string \<Rightarrow> int \<Rightarrow> app" where
  "ui_increment_elapsed env a u seconds =
     (case find_item_by_url (queue_items a) u of
        None \<Rightarrow> a
      | Some i \<Rightarrow>
          let item = queue_items a ! i;
              item1 = item\<lparr>elapsed_seconds := elapsed_seconds item + max 1 seconds\<rparr>;
              item2 = (if item_done item1 then item1\<lparr>status := ''FINISHED''\<rparr> else item1)
          in refresh_queue_tree env (a\<lparr>queue_items := (queue_items a)[i := item2]\<rparr>))"

definition ui_rotate_item :: "environment \<Rightarrow> app \<Rightarrow> string \<Rightarrow> app" where
  "ui_rotate_item env a u =
     (case find_item_by_url (queue_items a) u of
        None \<Rightarrow> a
      | Some idx \<Rightarrow>
          if idx + 1 < length (queue_items a)
          then refresh_queue_tree env
                 (a\<lparr>queue_items :=
                      take idx (queue_items a) @ drop (Suc idx) (queue_items a) @ [queue_items a ! idx]\<rparr>)
          else a)"

definition ui_set_retry_campaign_hint :: "app \<Rightarrow> string option \<Rightarrow> string option \<Rightarrow> app" where
  "ui_set_retry_campaign_hint a cid cname =
     a\<lparr>retry_campaign_hint_id :=
         (if strip (opt_text cid) = [] then None else Some (strip (opt_text cid))),
       retry_campaign_hint_name :=
         (if lower (strip (opt_text cname)) = [] then None else Some (lower (strip (opt_text cname))))\<rparr>"

fun handle_message :: "environment \<Rightarrow> app \<Rightarrow> ui_message \<Rightarrow> app" where
  "handle_message env a (Update_item u new_status new_notes) = ui_update_item env a u new_status new_notes"
| "handle_message env a (Increment_elapsed u seconds) = ui_increment_elapsed env a u seconds"
| "handle_message env a (Rotate_item u) = ui_rotate_item env a u"
| "handle_message env a (Set_retry_campaign_hint cid cname) = ui_set_retry_campaign_hint a cid cname"
| "handle_message env a (Log_line line) = a"
| "handle_message env a Save_config = a"

definition pump_ui_queue :: "environment \<Rightarrow> app \<Rightarrow> ui_message list \<Rightarrow> app" where
  "pump_ui_queue env a messages = foldl (handle_message env) a messages"

section \<open>Facts about the string helpers\<close>

lemma lstrip_no_leading_space: "lstrip s = c # cs \<Longrightarrow> \<not> py_isspace c"
  unfolding lstrip_def by (metis dropWhile_eq_Cons_conv)

lemma rstrip_idem: "rstrip (rstrip s) = rstrip s"
  unfolding rstrip_def by simp

lemma lstrip_rstrip_lstrip: "lstrip (rstrip (lstrip s)) = rstrip (lstrip s)"
proof (cases "lstrip s")
  case Nil
  then have "rstrip (lstrip s) = []" by (simp add: rstrip_def)
  then show ?thesis by (simp add: lstrip_def)
next
  case (Cons c cs)
  then have nsp: "\<not> py_isspace c" by (rule lstrip_no_leading_space)
  have "rstrip (c # cs) \<noteq> [] \<and> hd (rstrip (c # cs)) = c"
  proof (cases "dropWhile py_isspace (rev cs)")
    case Nil
    then show ?thesis using nsp by (simp add: rstrip_def dropWhile_append)
  next
    case (Cons d ds)
    then have "dropWhile py_isspace (rev cs @ [c]) = (d # ds) @ [c]"
      by (metis dropWhile_append1 dropWhile_eq_Nil_conv list.distinct(1))
    then show ?thesis by (simp add: rstrip_def hd_append)
  qed
  then obtain r where "rstrip (lstrip s) = c # r"
    using Cons by (cases "rstrip (c # cs)") auto
  then show ?thesis using nsp by (simp add: lstrip_def)
qed

lemma strip_idem: "strip (strip s) = strip s"
  unfolding strip_def by (simp add: lstrip_rstrip_lstrip rstrip_idem)

section \<open>The liveness sort key\<close>

text \<open>
  Claim C2, as the code has it. The key ranks a live channel before a known-offline one
  and a known-offline one before one of unknown liveness (the claim puts the unknown
  ones before the offline ones). Within one liveness the keys are ordered by descending
  viewer count, a negative count read as 0, then by ascending case-folded slug; two
  keys are equal exactly when liveness, clamped count and case-folded slug agree. Keys
  are compared as Python tuples, a total order.
\<close>

theorem channel_live_sort_key_order:
  "channel_live_sort_key (Some True) v s < channel_live_sort_key (Some False) v' s'
   \<and> channel_live_sort_key (Some False) v s < channel_live_sort_key None v' s'
   \<and> (channel_live_sort_key l v s < channel_live_sort_key l v' s'
        \<longleftrightarrow> max 0 v' < max 0 v \<or> (max 0 v = max 0 v' \<and> casefold s < casefold s'))
   \<and> (channel_live_sort_key l v s = channel_live_sort_key l' v' s'
        \<longleftrightarrow> l = l' \<and> max 0 v = max 0 v' \<and> casefold s = casefold s')
   \<and> (channel_live_sort_key l v s \<le> channel_live_sort_key l' v' s'
        \<or> channel_live_sort_key l' v' s' \<le> channel_live_sort_key l v s)"
proof -
  have ranks: "channel_live_sort_key (Some True) v s < channel_live_sort_key (Some False) v' s'"
    "channel_live_sort_key (Some False) v s < channel_live_sort_key None v' s'"
    by (simp_all add: channel_live_sort_key_def)
  have same: "channel_live_sort_key l v s < channel_live_sort_key l v' s'
        \<longleftrightarrow> max 0 v' < max 0 v \<or> (max 0 v = max 0 v' \<and> casefold s < casefold s')"
    by (auto simp add: channel_live_sort_key_def Let_def)
  have eq: "channel_live_sort_key l v s = channel_live_sort_key l' v' s'
        \<longleftrightarrow> l = l' \<and> max 0 v = max 0 v' \<and> casefold s = casefold s'"
    by (cases l; cases l') (auto simp add: channel_live_sort_key_def Let_def)
  have total: "channel_live_sort_key l v s \<le> channel_live_sort_key l' v' s'
        \<or> channel_live_sort_key l' v' s' \<le> channel_live_sort_key l v s"
    by (rule linear)
  show ?thesis by (intro conjI ranks same eq total)
qed

text \<open>
  At three channels, live with 10 viewers, offline with 50 and unknown with 50: the live
  one is first and the unknown one last.
\<close>

theorem channel_live_sort_key_order_witness:
  "channel_live_sort_key (Some True) 10 ''Zed'' < channel_live_sort_key (Some False) 50 ''abe''
   \<and> channel_live_sort_key (Some False) 50 ''abe'' < channel_live_sort_key None 50 ''abe''"
  by (intro conjI
        channel_live_sort_key_order[where v = 10 and s = "''Zed''" and v' = 50 and s' = "''abe''",
          THEN conjunct1]
        channel_live_sort_key_order[where v = 50 and s = "''abe''" and v' = 50 and s' = "''abe''",
          THEN conjunct2, THEN conjunct1])

text \<open>
  Claim C2 as stated fails: a channel of unknown liveness does not rank before a
  known-offline channel with the same viewers and slug.
\<close>

theorem unknown_not_before_offline:
  "\<not> (channel_live_sort_key None 0 ''a'' < channel_live_sort_key (Some False) 0 ''a'')"
  by (simp add: channel_live_sort_key_def)

section \<open>Normal form of the selection of games\<close>

lemma normalize_scan_Cons:
  "normalize_scan cleaned seen (raw # rest) =
     (if strip raw = [] \<or> casefold (strip raw) \<in> seen then normalize_scan cleaned seen rest
      else normalize_scan (cleaned @ [strip raw]) (insert (casefold (strip raw)) seen) rest)"
  by (simp add: Let_def)

lemma normalize_scan_mem:
  "x \<in> set (normalize_scan cleaned seen vs) \<Longrightarrow>
   x \<in> set cleaned \<or> (\<exists>v \<in> set vs. x = strip v \<and> strip v \<noteq> [])"
proof (induction vs arbitrary: cleaned seen)
  case Nil
  then show ?case by simp
next
  case (Cons raw rest)
  show ?case
  proof (cases "strip raw = [] \<or> casefold (strip raw) \<in> seen")
    case True
    then have "x \<in> set (normalize_scan cleaned seen rest)"
      using Cons.prems by (simp only: normalize_scan_Cons if_True)
    from Cons.IH[OF this] show ?thesis by auto
  next
    case False
    then have "x \<in> set (normalize_scan (cleaned @ [strip raw]) (insert (casefold (strip raw)) seen) rest)"
      using Cons.prems by (simp only: normalize_scan_Cons if_False)
    from Cons.IH[OF this] False show ?thesis by auto
  qed
qed

lemma normalize_scan_keys:
  "seen = casefold ` set cleaned \<Longrightarrow>
   casefold ` set (normalize_scan cleaned seen vs) =
     seen \<union> (\<lambda>v. casefold (strip v)) ` {v \<in> set vs. strip v \<noteq> []}"
proof (induction vs arbitrary: cleaned seen)
  case Nil
  then show ?case by simp
next
  case (Cons raw rest)
  show ?case
  proof (cases "strip raw = [] \<or> casefold (strip raw) \<in> seen")
    case True
    have "casefold ` set (normalize_scan cleaned seen rest) =
       seen \<union> (\<lambda>v. casefold (strip v)) ` {v \<in> set rest. strip v \<noteq> []}"
      using Cons.prems by (rule Cons.IH)
    then show ?thesis using True by (simp only: normalize_scan_Cons if_True) auto
  next
    case False
    have "casefold ` set (normalize_scan (cleaned @ [strip raw]) (insert (casefold (strip raw)) seen) rest) =
       insert (casefold (strip raw)) seen \<union> (\<lambda>v. casefold (strip v)) ` {v \<in> set rest. strip v \<noteq> []}"
      by (rule Cons.IH) (simp add: Cons.prems)
    then show ?thesis using False by (simp only: normalize_scan_Cons if_False) auto
  qed
qed

lemma normalize_scan_distinct:
  "seen = casefold ` set cleaned \<Longrightarrow> distinct (map casefold cleaned) \<Longrightarrow>
   distinct (map casefold (normalize_scan cleaned seen vs))"
proof (induction vs arbitrary: cleaned seen)
  case Nil
  then show ?case by simp
next
  case (Cons raw rest)
  show ?case
  proof (cases "strip raw = [] \<or> casefold (strip raw) \<in> seen")
    case True
    then show ?thesis using Cons.IH[OF Cons.prems] by (simp only: normalize_scan_Cons if_True)
  next
    case False
    have "distinct (map casefold (normalize_scan (cleaned @ [strip raw]) (insert (casefold (strip raw)) seen) rest))"
      by (rule Cons.IH) (use Cons.prems False in auto)
    then show ?thesis using False by (simp only: normalize_scan_Cons if_False)
  qed
qed

lemma normalize_scan_blank:
  "\<forall>v \<in> set vs. strip v = [] \<Longrightarrow> normalize_scan cleaned seen vs = cleaned"
  by (induction vs) (simp_all add: Let_def)

lemma distinct_map_sort_key:
  "distinct (map f xs) \<Longrightarrow> distinct (map f (sort_key f xs))"
  by (simp add: distinct_map)

lemma normalize_result:
  fixes vals
  defines "vs \<equiv> (case vals of None \<Rightarrow> [] | Some xs \<Rightarrow> xs)"
  defines "r \<equiv> normalize_preferred_games vals"
  shows "(r = [ALL_GAMES_TOKEN] \<or>
          (r \<noteq> [] \<and> ALL_GAMES_TOKEN \<notin> set r
           \<and> (\<forall>g \<in> set r. g \<noteq> [] \<and> strip g = g)
           \<and> distinct (map casefold r) \<and> sorted (map casefold r)
           \<and> casefold ` set r = (\<lambda>v. casefold (strip v)) ` {v \<in> set vs. strip v \<noteq> []}))
       \<and> ((\<forall>v \<in> set vs. strip v = []) \<longrightarrow> r = [ALL_GAMES_TOKEN])"
proof -
  define cl where "cl = normalize_scan [] {} vs"
  have r: "r = (if ALL_GAMES_TOKEN \<in> set cl then [ALL_GAMES_TOKEN]
               else if cl \<noteq> [] then sort_key casefold cl else [ALL_GAMES_TOKEN])"
    by (simp add: r_def normalize_preferred_games_def cl_def vs_def list_ex_iff)
  have st: "\<forall>g \<in> set cl. g \<noteq> [] \<and> strip g = g"
  proof
    fix g assume "g \<in> set cl"
    then obtain v where "g = strip v" "strip v \<noteq> []"
      using normalize_scan_mem[of g "[]" "{}" vs] by (auto simp: cl_def)
    then show "g \<noteq> [] \<and> strip g = g" by (simp add: strip_idem)
  qed
  have di: "distinct (map casefold cl)"
    unfolding cl_def by (rule normalize_scan_distinct) simp_all
  have ks: "casefold ` set cl = (\<lambda>v. casefold (strip v)) ` {v \<in> set vs. strip v \<noteq> []}"
    using normalize_scan_keys[of "{}" "[]" vs] by (simp add: cl_def)
  have p1: "r = [ALL_GAMES_TOKEN] \<or>
          (r \<noteq> [] \<and> ALL_GAMES_TOKEN \<notin> set r
           \<and> (\<forall>g \<in> set r. g \<noteq> [] \<and> strip g = g)
           \<and> distinct (map casefold r) \<and> sorted (map casefold r)
           \<and> casefold ` set r = (\<lambda>v. casefold (strip v)) ` {v \<in> set vs. strip v \<noteq> []})"
  proof (cases "ALL_GAMES_TOKEN \<in> set cl \<or> cl = []")
    case True
    then show ?thesis using r by auto
  next
    case False
    then have rs: "r = sort_key casefold cl" using r by simp
    have "r \<noteq> []" using False rs by (metis set_empty set_sort)
    moreover have "set r = set cl" by (simp add: rs)
    moreover have "distinct (map casefold r)" unfolding rs using di by (rule distinct_map_sort_key)
    moreover have "sorted (map casefold r)" by (simp add: rs)
    ultimately show ?thesis using False st ks by simp
  qed
  have p2: "(\<forall>v \<in> set vs. strip v = []) \<longrightarrow> r = [ALL_GAMES_TOKEN]"
    using r normalize_scan_blank[of vs "[]" "{}"] by (auto simp: cl_def)
  show ?thesis using p1 p2 by blast
qed

lemma filter_never_empty:
  "case preferred_game_filter cached of (normalized, mine_all, selected) \<Rightarrow>
      normalized = normalize_preferred_games (Some cached) \<and> (mine_all \<or> selected \<noteq> {})"
proof -
  define r where "r = normalize_preferred_games (Some cached)"
  have "r = [ALL_GAMES_TOKEN] \<or> (r \<noteq> [] \<and> ALL_GAMES_TOKEN \<notin> set r
           \<and> (\<forall>g \<in> set r. g \<noteq> [] \<and> strip g = g))"
    using normalize_result[of "Some cached"] unfolding r_def by blast
  then show ?thesis
  proof
    assume "r = [ALL_GAMES_TOKEN]"
    then show ?thesis by (simp add: preferred_game_filter_def Let_def r_def[symmetric])
  next
    assume a: "r \<noteq> [] \<and> ALL_GAMES_TOKEN \<notin> set r \<and> (\<forall>g \<in> set r. g \<noteq> [] \<and> strip g = g)"
    then have "\<exists>x. x \<in> set r \<and> x \<noteq> ALL_GAMES_TOKEN \<and> strip x \<noteq> []"
      by (cases r) auto
    then show ?thesis by (simp add: preferred_game_filter_def Let_def r_def[symmetric])
  qed
qed

text \<open>
  Claim C10. Whatever the list \<open>vals\<close> (or \<open>None\<close>), the normalised selection is either
  the single all-games token, or a non-empty list without the token, of stripped
  non-empty names, pairwise different and sorted under \<open>casefold\<close>, whose case-folded
  names are those of the non-blank inputs. A selection with only blank entries (the empty
  one too) gives the token. The filter derived from any cached selection has
  \<open>mine_all\<close> true or a non-empty set of selected games.
\<close>

theorem preferred_games_normal_form:
  "(normalize_preferred_games vals = [ALL_GAMES_TOKEN] \<or>
      (normalize_preferred_games vals \<noteq> []
       \<and> ALL_GAMES_TOKEN \<notin> set (normalize_preferred_games vals)
       \<and> (\<forall>g \<in> set (normalize_preferred_games vals). g \<noteq> [] \<and> strip g = g)
       \<and> distinct (map casefold (normalize_preferred_games vals))
       \<and> sorted (map casefold (normalize_preferred_games vals))
       \<and> casefold ` set (normalize_preferred_games vals) =
           (\<lambda>v. casefold (strip v)) ` {v \<in> set (case vals of None \<Rightarrow> [] | Some xs \<Rightarrow> xs). strip v \<noteq> []}))
   \<and> ((\<forall>v \<in> set (case vals of None \<Rightarrow> [] | Some xs \<Rightarrow> xs). strip v = [])
        \<longrightarrow> normalize_preferred_games vals = [ALL_GAMES_TOKEN])
   \<and> (case preferred_game_filter cached of (normalized, mine_all, selected) \<Rightarrow>
        normalized = normalize_preferred_games (Some cached) \<and> (mine_all \<or> selected \<noteq> {}))"
proof -
  note shape = normalize_result[of vals]
  show ?thesis
    by (intro conjI conjunct1[OF shape] conjunct2[OF shape] filter_never_empty)
qed

text \<open>
  At the selection \<open>["b ", "A", " a", " "]\<close> the result is \<open>["A", "b"]\<close>; at a blank
  selection it is the token, and the filter mines all games. A no-break space and a NEL
  are blanks. The capital and the small e with acute accent are one name, and so are
  \<open>STRASSE\<close> and the same word written with a sharp s; the first spelling stays. The
  micro sign sorts after the thorn, as its case-folded form is a Greek letter.
\<close>

theorem preferred_games_normal_form_witness:
  "normalize_preferred_games (Some [''b '', ''A'', '' a'', '' '']) = [''A'', ''b'']
   \<and> normalize_preferred_games (Some [''  '', []]) = [ALL_GAMES_TOKEN]
   \<and> preferred_game_filter [''  '', []] = ([ALL_GAMES_TOKEN], True, {})
   \<and> normalize_preferred_games (Some [[CHR 0xA0], [CHR 0x85, CHR '' '']]) = [ALL_GAMES_TOKEN]
   \<and> normalize_preferred_games
         (Some [[CHR 0xC9], [CHR 0xE9], ''STRASSE'', ''stra'' @ [CHR 0xDF] @ ''e''])
       = [''STRASSE'', [CHR 0xC9]]
   \<and> normalize_preferred_games (Some [[CHR 0xB5], ''z'', [CHR 0xFE]]) = [''z'', [CHR 0xFE], [CHR 0xB5]]"
proof -
  have micro: "normalize_preferred_games (Some [[CHR 0xB5], ''z'', [CHR 0xFE]]) = [''z'', [CHR 0xFE], [CHR 0xB5]]"
    by code_simp
  have latin: "normalize_preferred_games (Some [[CHR 0xA0], [CHR 0x85, CHR '' '']]) = [ALL_GAMES_TOKEN]"
    by code_simp
  have folded: "normalize_preferred_games
         (Some [[CHR 0xC9], [CHR 0xE9], ''STRASSE'', ''stra'' @ [CHR 0xDF] @ ''e''])
       = [''STRASSE'', [CHR 0xC9]]"
    by code_simp
  have blank: "\<forall>v \<in> set (case Some [''  '', []] of None \<Rightarrow> [] | Some xs \<Rightarrow> xs). strip v = []"
    by code_simp
  have token: "normalize_preferred_games (Some [''  '', []]) = [ALL_GAMES_TOKEN]"
    using preferred_games_normal_form[of "Some [''  '', []]" "[]"] blank by blast
  have two: "normalize_preferred_games (Some [''b '', ''A'', '' a'', '' '']) = [''A'', ''b'']"
    by code_simp
  have filt: "preferred_game_filter [''  '', []] = ([ALL_GAMES_TOKEN], True, {})"
    using token by (simp add: preferred_game_filter_def ALL_GAMES_TOKEN_def)
  show ?thesis by (intro conjI token two filt latin folded micro)
qed

section \<open>Failure of the liveness query\<close>

text \<open>
  Claim C6. When the cache has no entry for the slug that is fresh enough, the network
  is to be used and the query fails (the call raises, or its answer cannot be read),
  the lookup returns the cached \<open>(live, viewers)\<close> if the slug has an entry and
  \<open>(None, 0)\<close> if not, and the cache is as it was.
\<close>

theorem snapshot_query_failure:
  assumes "\<not> (case cache slug of Some c \<Rightarrow> now - snd (snd c) \<le> max_age_seconds | None \<Rightarrow> False)"
    and "query_live (channel_live_status slug) = Inl exc"
  shows "get_channel_live_snapshot channel_live_status now cache slug max_age_seconds True =
       (cache, case cache slug of Some (live, viewers, stamp) \<Rightarrow> (live, viewers) | None \<Rightarrow> (None, 0))"
  using assms
  by (auto simp: get_channel_live_snapshot_def cached_pair_def Let_def split: option.splits)

text \<open>
  A stale entry \<open>(True, 7)\<close> stored at time 10 and read at time 100 with a window of 45
  seconds, the network call raising: the stale pair comes back.
\<close>

theorem snapshot_query_failure_witness:
  "get_channel_live_snapshot (\<lambda>slug. Inl ValueError) 100 [''foo'' \<mapsto> (Some True, 7, 10)] ''foo'' 45 True
     = ([''foo'' \<mapsto> (Some True, 7, 10)], Some True, 7)
   \<and> get_channel_live_snapshot (\<lambda>slug. Inr (JList [])) 100 Map.empty ''foo'' 45 True
     = (Map.empty, None, 0)"
proof -
  have stale: "\<not> (case [''foo'' \<mapsto> (Some True, 7::int, 10::real)] ''foo'' of
                    Some c \<Rightarrow> 100 - snd (snd c) \<le> 45 | None \<Rightarrow> False)"
    by simp
  have raised: "query_live ((\<lambda>slug. Inl ValueError) ''foo'') = Inl ValueError"
    by (simp add: query_live_def bind_err_def)
  have absent: "\<not> (case (Map.empty :: live_cache) ''foo'' of
                    Some c \<Rightarrow> 100 - snd (snd c) \<le> 45 | None \<Rightarrow> False)"
    by simp
  have unreadable: "query_live ((\<lambda>slug. Inr (JList [])) ''foo'') = Inl AttributeError"
    by (simp add: query_live_def bind_err_def)
  show ?thesis
    using snapshot_query_failure[where cache = "[''foo'' \<mapsto> (Some True, 7, 10)]"
            and channel_live_status = "\<lambda>slug. Inl ValueError", OF stale raised]
          snapshot_query_failure[where cache = Map.empty
            and channel_live_status = "\<lambda>slug. Inr (JList [])", OF absent unreadable]
    by simp
qed

section \<open>Parsing the campaigns response\<close>

text \<open>
  Claim C7 fails on the code. In a payload with a well-formed campaign followed by one
  whose \<open>category\<close> is a string, \<open>KickCampaign.from_api\<close> calls \<open>.get\<close> on the string:
  the \<open>AttributeError\<close> ends the whole parse, and the well-formed campaign is lost with
  it.
\<close>

theorem parse_campaigns_response_raises:
  "parse_campaigns_response
     [(''data'', JList [JDict [(''id'', JStr ''1''), (''category'', JDict [(''name'', JStr ''G'')])],
                        JDict [(''id'', JStr ''2''), (''category'', JStr ''FPS'')]])]
   = Inl AttributeError"
  by code_simp

section \<open>Round trip of the persisted queue\<close>

lemma from_dict_to_dict:
  "QueueItem_from_dict (QueueItem_to_dict q) =
     Inr (q\<lparr>status := (if status q = [] then ''PENDING'' else status q),
             category_id := (if category_id q = Some 0 then None else category_id q)\<rparr>)"
  by (cases "campaign_id q"; cases "campaign_name q"; cases "category_id q")
     (simp_all add: QueueItem_from_dict_def QueueItem_to_dict_def dict_get_def bind_err_def safe_int_def
       py_or_def json_of_opt_str_def json_of_opt_int_def opt_str_of_json_def)

lemma load_items_to_dict:
  "load_items (map (\<lambda>item. JDict (QueueItem_to_dict item)) items) =
     map (\<lambda>q. q\<lparr>status := (if status q = [] then ''PENDING'' else status q),
                 category_id := (if category_id q = Some 0 then None else category_id q)\<rparr>) items"
  by (induction items) (simp_all add: from_dict_to_dict)

text \<open>
  Claim C8, as the code has it. Reloading the persisted form of an item never raises and
  gives the item back with an empty \<open>status\<close> replaced by \<open>PENDING\<close> and a \<open>category_id\<close>
  of 0 replaced by \<open>None\<close>, the other six fields unchanged; so the reloaded item is
  equal to the original one when its status is not empty and its category is not 0.
  Reloading the \<open>queue_items\<close> entry of a saved configuration (which has no entry
  \<open>items\<close>) gives the items in the same order, each one changed in that way only.
\<close>

theorem queue_item_round_trip:
  "QueueItem_from_dict (QueueItem_to_dict q) =
     Inr (q\<lparr>status := (if status q = [] then ''PENDING'' else status q),
             category_id := (if category_id q = Some 0 then None else category_id q)\<rparr>)
   \<and> (status q \<noteq> [] \<and> category_id q \<noteq> Some 0 \<longrightarrow> QueueItem_from_dict (QueueItem_to_dict q) = Inr q)
   \<and> (map_of data ''queue_items'' = Some (queue_items_to_json items) \<and> map_of data ''items'' = None \<longrightarrow>
        queue_items_from_dict data =
          map (\<lambda>q. q\<lparr>status := (if status q = [] then ''PENDING'' else status q),
                      category_id := (if category_id q = Some 0 then None else category_id q)\<rparr>) items)"
proof -
  have exact: "status q \<noteq> [] \<and> category_id q \<noteq> Some 0 \<longrightarrow> QueueItem_from_dict (QueueItem_to_dict q) = Inr q"
    by (simp add: from_dict_to_dict)
  have whole: "map_of data ''queue_items'' = Some (queue_items_to_json items) \<and> map_of data ''items'' = None \<longrightarrow>
        queue_items_from_dict data =
          map (\<lambda>q. q\<lparr>status := (if status q = [] then ''PENDING'' else status q),
                      category_id := (if category_id q = Some 0 then None else category_id q)\<rparr>) items"
    by (cases items)
       (auto simp: queue_items_from_dict_def queue_items_to_json_def dict_get_def py_or_def
          load_items_to_dict from_dict_to_dict)
  show ?thesis by (intro conjI from_dict_to_dict exact whole)
qed

text \<open>
  A queue of two items, the second with an empty status and the category 0: the first
  comes back as it was, the second with \<open>PENDING\<close> and no category.
\<close>

theorem queue_item_round_trip_witness:
  "queue_items_from_dict
     [(''queue_items'', queue_items_to_json
        [\<lparr>url = ''https://kick.com/a'', minutes_target = 30, elapsed_seconds = 120, status = ''LIVE'',
          campaign_id = Some ''c1'', campaign_name = Some ''Drops'', category_id = Some 7, notes = ''n''\<rparr>,
         \<lparr>url = ''https://kick.com/b'', minutes_target = 0, elapsed_seconds = 0, status = [],
          campaign_id = None, campaign_name = None, category_id = Some 0, notes = []\<rparr>]),
      (''language'', JStr ''en'')]
   = [\<lparr>url = ''https://kick.com/a'', minutes_target = 30, elapsed_seconds = 120, status = ''LIVE'',
        campaign_id = Some ''c1'', campaign_name = Some ''Drops'', category_id = Some 7, notes = ''n''\<rparr>,
      \<lparr>url = ''https://kick.com/b'', minutes_target = 0, elapsed_seconds = 0, status = ''PENDING'',
        campaign_id = None, campaign_name = None, category_id = None, notes = []\<rparr>]"
  using queue_item_round_trip[of _ "[(''queue_items'', queue_items_to_json
        [\<lparr>url = ''https://kick.com/a'', minutes_target = 30, elapsed_seconds = 120, status = ''LIVE'',
          campaign_id = Some ''c1'', campaign_name = Some ''Drops'', category_id = Some 7, notes = ''n''\<rparr>,
         \<lparr>url = ''https://kick.com/b'', minutes_target = 0, elapsed_seconds = 0, status = [],
          campaign_id = None, campaign_name = None, category_id = Some 0, notes = []\<rparr>]),
      (''language'', JStr ''en'')]"
     "[\<lparr>url = ''https://kick.com/a'', minutes_target = 30, elapsed_seconds = 120, status = ''LIVE'',
          campaign_id = Some ''c1'', campaign_name = Some ''Drops'', category_id = Some 7, notes = ''n''\<rparr>,
         \<lparr>url = ''https://kick.com/b'', minutes_target = 0, elapsed_seconds = 0, status = [],
          campaign_id = None, campaign_name = None, category_id = Some 0, notes = []\<rparr>]"]
  by simp

text \<open>
  Claim C8 as stated fails: an item whose \<open>category_id\<close> is 0 is not reproduced field for
  field, its category comes back as \<open>None\<close>.
\<close>

theorem queue_item_round_trip_not_exact:
  "QueueItem_from_dict (QueueItem_to_dict
      \<lparr>url = ''https://kick.com/a'', minutes_target = 0, elapsed_seconds = 0, status = ''PENDING'',
       campaign_id = None, campaign_name = None, category_id = Some 0, notes = []\<rparr>)
   \<noteq> Inr \<lparr>url = ''https://kick.com/a'', minutes_target = 0, elapsed_seconds = 0, status = ''PENDING'',
          campaign_id = None, campaign_name = None, category_id = Some 0, notes = []\<rparr>"
  by (simp add: from_dict_to_dict)

section \<open>The next queue item\<close>

lemma finalize_item_finished:
  "finalize_item env sel item = (item', campaign, finished) \<Longrightarrow>
   finished \<longleftrightarrow> status item' \<in> {''FINISHED'', ''EXPIRED''}"
  unfolding finalize_item_def Let_def
  by (auto split: if_splits)

lemma examine_item_Skipped:
  "snd (snd (examine_item env sel cache item)) = Skipped \<longleftrightarrow> \<not> eligible env sel item"
proof -
  obtain item' campaign finished where f: "finalize_item env sel item = (item', campaign, finished)"
    by (cases "finalize_item env sel item") auto
  have fin: "finished \<longleftrightarrow> status item' \<in> {''FINISHED'', ''EXPIRED''}"
    using f by (rule finalize_item_finished)
  obtain c i l v where p: "probe_item env cache item' campaign = (c, i, l, v)"
    by (cases "probe_item env cache item' campaign") auto
  show ?thesis
    using fin by (simp add: examine_item_def eligible_def f p)
qed

lemma scan_items_chosen:
  "distinct ps \<Longrightarrow>
   snd (snd (scan_items env sel ps queue cache fallback_item fallback_live_viewers)) \<noteq> None
     \<longleftrightarrow> fallback_item \<noteq> None \<or> (\<exists>i \<in> set ps. eligible env sel (queue ! i))"
proof (induction ps arbitrary: queue cache fallback_item fallback_live_viewers)
  case Nil
  then show ?case by simp
next
  case (Cons i rest)
  obtain cache' item' outcome where e: "examine_item env sel cache (queue ! i) = (cache', item', outcome)"
    by (cases "examine_item env sel cache (queue ! i)") auto
  have d: "distinct rest" and ni: "i \<notin> set rest" using Cons.prems by auto
  have same: "(\<exists>j \<in> set rest. eligible env sel (queue[i := item'] ! j))
           \<longleftrightarrow> (\<exists>j \<in> set rest. eligible env sel (queue ! j))"
    using ni by (metis nth_list_update_neq)
  have sk: "outcome = Skipped \<longleftrightarrow> \<not> eligible env sel (queue ! i)"
    using examine_item_Skipped[of env sel cache "queue ! i"] e by simp
  show ?case
  proof (cases outcome)
    case Skipped
    then show ?thesis
      using Cons.IH[OF d, of "queue[i := item']" cache' fallback_item fallback_live_viewers] same sk e
      by simp
  next
    case (Candidate is_live viewers)
    then have el: "eligible env sel (queue ! i)" using sk by simp
    show ?thesis
    proof (cases is_live)
      case True
      then show ?thesis using Candidate e el by simp
    next
      case False
      show ?thesis
      proof (cases "fallback_item = None \<or> viewers > fallback_live_viewers")
        case True
        then show ?thesis
          using Cons.IH[OF d, of "queue[i := item']" cache' "Some i" viewers] Candidate e el False
          by simp
      next
        case f2: False
        then have "fallback_item \<noteq> None" by simp
        then show ?thesis
          using Cons.IH[OF d, of "queue[i := item']" cache' fallback_item fallback_live_viewers]
            Candidate e el False f2
          by auto
      qed
    qed
  qed
qed

lemma scan_items_chosen_eligible:
  "distinct ps \<Longrightarrow>
   snd (snd (scan_items env sel ps queue cache fallback_item fallback_live_viewers)) = Some k \<Longrightarrow>
   fallback_item = Some k \<or> (k \<in> set ps \<and> eligible env sel (queue ! k))"
proof (induction ps arbitrary: queue cache fallback_item fallback_live_viewers)
  case Nil
  then show ?case by simp
next
  case (Cons i rest)
  obtain cache' item' outcome where e: "examine_item env sel cache (queue ! i) = (cache', item', outcome)"
    by (cases "examine_item env sel cache (queue ! i)") auto
  have d: "distinct rest" and ni: "i \<notin> set rest" using Cons.prems by auto
  have sk: "outcome = Skipped \<longleftrightarrow> \<not> eligible env sel (queue ! i)"
    using examine_item_Skipped[of env sel cache "queue ! i"] e by simp
  have keep: "k \<in> set rest \<and> eligible env sel (queue[i := item'] ! k)
              \<Longrightarrow> k \<in> set (i # rest) \<and> eligible env sel (queue ! k)"
    using ni by (metis list.set_intros(2) nth_list_update_neq)
  show ?case
  proof (cases outcome)
    case Skipped
    then have "snd (snd (scan_items env sel rest (queue[i := item']) cache' fallback_item fallback_live_viewers)) = Some k"
      using Cons.prems(2) e by simp
    from Cons.IH[OF d this] keep show ?thesis by blast
  next
    case (Candidate is_live viewers)
    then have el: "eligible env sel (queue ! i)" using sk by simp
    show ?thesis
    proof (cases is_live)
      case True
      then have "k = i" using Cons.prems(2) Candidate e by simp
      then show ?thesis using el by simp
    next
      case False
      show ?thesis
      proof (cases "fallback_item = None \<or> viewers > fallback_live_viewers")
        case True
        then have "snd (snd (scan_items env sel rest (queue[i := item']) cache' (Some i) viewers)) = Some k"
          using Cons.prems(2) Candidate e False by simp
        from Cons.IH[OF d this] keep el show ?thesis by auto
      next
        case f2: False
        then have "snd (snd (scan_items env sel rest (queue[i := item']) cache' fallback_item fallback_live_viewers)) = Some k"
          using Cons.prems(2) Candidate e False by auto
        from Cons.IH[OF d this] keep show ?thesis by blast
      qed
    qed
  qed
qed

lemma ordered_items_positions:
  "distinct (fst (ordered_items rid rname queue)) \<and>
   set (fst (ordered_items rid rname queue)) = {0..<length queue}"
  unfolding ordered_items_def Let_def by auto

section \<open>Positions of a list and filters\<close>

lemma map_nth_filter_positions:
  "map (nth xs) (filter (\<lambda>i. P (xs ! i)) [0..<length xs]) = filter P xs"
proof -
  have "filter P xs = filter P (map (nth xs) [0..<length xs])"
    by (simp add: map_nth)
  also have "\<dots> = map (nth xs) (filter (P \<circ> nth xs) [0..<length xs])"
    by (rule filter_map)
  finally show ?thesis by (simp add: comp_def)
qed


section \<open>A forced switch of channel\<close>

lemma map_of_zip_positions:
  "map_of (zip xs [0..<length xs]) x = Some i \<Longrightarrow> i < length xs \<and> xs ! i = x"
proof -
  assume "map_of (zip xs [0..<length xs]) x = Some i"
  then have "(x, i) \<in> set (zip xs [0..<length xs])" by (rule map_of_SomeD)
  then obtain k where "k < length xs" "xs ! k = x" "[0..<length xs] ! k = i"
    by (auto simp: in_set_zip)
  then show ?thesis by simp
qed

lemma find_item_by_url_Some:
  "find_item_by_url queue u = Some i \<Longrightarrow> i < length queue \<and> url (queue ! i) = u"
  using map_of_zip_positions[of "map url queue" u i] by (auto simp add: find_item_by_url_def)

lemma find_item_by_url_same_urls:
  "map url queue' = map url queue \<Longrightarrow> find_item_by_url queue' u = find_item_by_url queue u"
  using map_eq_imp_length_eq[of url queue' url queue] by (simp add: find_item_by_url_def)

lemma selection_of_queue [simp]:
  "selection_of (a\<lparr>queue_items := q\<rparr>) = selection_of a"
  "selection_of (a\<lparr>retry_campaign_hint_id := h\<rparr>) = selection_of a"
  "selection_of (a\<lparr>retry_campaign_hint_name := h'\<rparr>) = selection_of a"
  by (simp_all add: selection_of_def)

lemma resolve_status [simp]:
  "resolve_queue_item_campaign (item\<lparr>status := s\<rparr>) by_id by_name = resolve_queue_item_campaign item by_id by_name"
  "resolve_item_progress_campaign (item\<lparr>status := s\<rparr>) pby_id pby_name = resolve_item_progress_campaign item pby_id pby_name"
  "resolve_queue_item_campaign (item\<lparr>notes := n\<rparr>) by_id by_name = resolve_queue_item_campaign item by_id by_name"
  "resolve_item_progress_campaign (item\<lparr>notes := n\<rparr>) pby_id pby_name = resolve_item_progress_campaign item pby_id pby_name"
  by (auto simp add: resolve_queue_item_campaign_def resolve_item_progress_campaign_def Let_def)

lemma refresh_item_fields [simp]:
  "url (refresh_item env sel item) = url item"
  "notes (refresh_item env sel item) = notes item"
  by (simp_all add: refresh_item_def Let_def)

lemma refresh_item_status:
  "status (refresh_item env sel item) =
     (if is_progress_campaign_finished
           (resolve_item_progress_campaign item (progress_by_id sel) (progress_by_name sel))
      then ''FINISHED''
      else if is_campaign_expired env
           (resolve_queue_item_campaign item (campaign_by_id sel) (campaign_by_name sel))
      then ''EXPIRED'' else status item)"
  by (simp add: refresh_item_def Let_def)

lemma refresh_item_idem:
  "refresh_item env sel (refresh_item env sel item) = refresh_item env sel item"
  by (simp add: refresh_item_def Let_def)

lemma rotate_to_tail:
  assumes "i < length q"
  shows "(if i + 1 < length q then take i q @ drop (Suc i) q @ [q ! i] else q)
           = take i q @ drop (Suc i) q @ [q ! i]"
proof (cases "i + 1 < length q")
  case True
  then show ?thesis by simp
next
  case False
  then have "Suc i = length q" using assms by simp
  then have "take i q @ [q ! i] = q"
    by (metis assms take_Suc_conv_app_nth take_all order_refl)
  then show ?thesis using False \<open>Suc i = length q\<close> by simp
qed

lemma forced_switch_messages:
  assumes "strip u \<noteq> []" "strip u \<in> forced"
  shows "watch_iteration answer t p w forced item u slug next_poll next_tick =
      (forced - {strip u},
       [Update_item u (Some ''RETRY'') (Some ''cambio manual de canal''),
        Log_line (''Cambio manual solicitado: '' @ slug)],
       Returned ''retry'')"
  using assms by (simp add: watch_iteration_def consume_force_channel_switch_def Let_def)

lemma forced_switch_handled:
  fixes env :: environment
  assumes found: "find_item_by_url (queue_items a) u = Some i"
    and watched: "url item = u"
  defines "q1 \<equiv> map (refresh_item env (selection_of a))
      ((queue_items a)[i :=
         (queue_items a ! i)\<lparr>notes := ''cambio manual de canal'',
            status := (if item_done (queue_items a ! i) then ''FINISHED'' else ''RETRY'')\<rparr>])"
  shows "queue_items (pump_ui_queue env a
           ([Update_item u (Some ''RETRY'') (Some ''cambio manual de canal''), Log_line line]
            @ after_process_item ''retry'' item))
         = take i q1 @ drop (Suc i) q1 @ [q1 ! i]"
proof -
  define q where "q = queue_items a"
  have i: "i < length q" "url (q ! i) = u"
    using find_item_by_url_Some[OF found] by (simp_all add: q_def)
  define item3 where "item3 =
         (q ! i)\<lparr>notes := ''cambio manual de canal'',
            status := (if item_done (q ! i) then ''FINISHED'' else ''RETRY'')\<rparr>"
  have q1: "q1 = map (refresh_item env (selection_of a)) (q[i := item3])"
    by (simp add: q1_def item3_def q_def)
  define a1 where "a1 = ui_update_item env a u (Some ''RETRY'') (Some ''cambio manual de canal'')"
  have upd: "(if item_done ((q ! i)\<lparr>status := ''RETRY'', notes := ''cambio manual de canal''\<rparr>)
                \<and> status ((q ! i)\<lparr>status := ''RETRY'', notes := ''cambio manual de canal''\<rparr>) \<noteq> ''FINISHED''
             then (q ! i)\<lparr>status := ''RETRY'', notes := ''cambio manual de canal'', status := ''FINISHED''\<rparr>
             else (q ! i)\<lparr>status := ''RETRY'', notes := ''cambio manual de canal''\<rparr>) = item3"
    unfolding item3_def by (cases "q ! i") (simp add: item_done_def)
  have qa1: "queue_items a1 = q1"
    unfolding a1_def ui_update_item_def q1
    using found upd
    by (simp add: q_def[symmetric] Let_def refresh_queue_tree_def)
  have sel1: "selection_of a1 = selection_of a"
    unfolding a1_def ui_update_item_def using found
    by (simp add: Let_def refresh_queue_tree_def)
  define a2 where "a2 = ui_set_retry_campaign_hint a1 (campaign_id item) (campaign_name item)"
  have qa2: "queue_items a2 = q1" and sel2: "selection_of a2 = selection_of a"
    using qa1 sel1 by (simp_all add: a2_def ui_set_retry_campaign_hint_def)
  have urls: "map url q1 = map url q"
  proof -
    have "url item3 = url (q ! i)" by (simp add: item3_def)
    then have "map url (q[i := item3]) = map url q"
      by (simp add: map_update list_update_same_conv i(1))
    then show ?thesis by (simp add: q1 comp_def)
  qed
  have found1: "find_item_by_url q1 u = Some i"
    using find_item_by_url_same_urls[OF urls, of u] found by (simp add: q_def)
  have len1: "i < length q1" using i(1) by (simp add: q1)
  have idem: "map (refresh_item env (selection_of a)) q1 = q1"
    by (simp add: q1 refresh_item_idem)
  have rot: "queue_items (ui_rotate_item env a2 u) = take i q1 @ drop (Suc i) q1 @ [q1 ! i]"
  proof (cases "i + 1 < length q1")
    case True
    have "map (refresh_item env (selection_of a)) (take i q1 @ drop (Suc i) q1 @ [q1 ! i])
            = take i q1 @ drop (Suc i) q1 @ [q1 ! i]"
      using idem len1 by (metis drop_map take_map map_append list.simps(8,9) nth_map)
    then show ?thesis
      using True found1 by (simp add: ui_rotate_item_def qa2 sel2 refresh_queue_tree_def)
  next
    case False
    then show ?thesis
      using found1 rotate_to_tail[OF len1] by (simp add: ui_rotate_item_def qa2)
  qed
  show ?thesis
    using rot watched
    by (simp add: pump_ui_queue_def after_process_item_def a1_def[symmetric] a2_def[symmetric])
qed

text \<open>
  Claim C5, as the code has it. A request is pending for the watched URL \<open>u\<close> when its
  stripped form is in the set of forced switches. The next iteration of the watch loop
  then takes the request out of the set, posts the update \<open>RETRY\<close> with the note
  \<open>cambio manual de canal\<close>, and returns \<open>retry\<close>; the run loop posts the hint and the
  rotation. Applied in order, the messages leave the first item with the URL \<open>u\<close> at the
  tail of the queue with that note, the other items before it in their order. Its status
  is \<open>RETRY\<close> unless a handler overrides it: \<open>FINISHED\<close> when its campaign is fully
  claimed or its target is reached, \<open>EXPIRED\<close> when its campaign has expired.
\<close>

theorem forced_switch_moves_item:
  assumes "strip u \<noteq> []" "strip u \<in> forced"
    and "find_item_by_url (queue_items a) u = Some i"
    and "url item = u"
  shows "watch_iteration answer t p w forced item u slug next_poll next_tick =
      (forced - {strip u},
       [Update_item u (Some ''RETRY'') (Some ''cambio manual de canal''),
        Log_line (''Cambio manual solicitado: '' @ slug)],
       Returned ''retry'')
   \<and> status (last (queue_items (pump_ui_queue env a
         ([Update_item u (Some ''RETRY'') (Some ''cambio manual de canal''),
           Log_line (''Cambio manual solicitado: '' @ slug)] @ after_process_item ''retry'' item)))) =
       (if is_progress_campaign_finished (resolve_item_progress_campaign (queue_items a ! i)
             (progress_by_id (selection_of a)) (progress_by_name (selection_of a)))
        then ''FINISHED''
        else if is_campaign_expired env (resolve_queue_item_campaign (queue_items a ! i)
             (campaign_by_id (selection_of a)) (campaign_by_name (selection_of a)))
        then ''EXPIRED''
        else if item_done (queue_items a ! i) then ''FINISHED'' else ''RETRY'')
   \<and> last (queue_items (pump_ui_queue env a
         ([Update_item u (Some ''RETRY'') (Some ''cambio manual de canal''),
           Log_line (''Cambio manual solicitado: '' @ slug)] @ after_process_item ''retry'' item))) =
       refresh_item env (selection_of a)
         ((queue_items a ! i)\<lparr>notes := ''cambio manual de canal'',
            status := (if item_done (queue_items a ! i) then ''FINISHED'' else ''RETRY'')\<rparr>)
   \<and> butlast (queue_items (pump_ui_queue env a
         ([Update_item u (Some ''RETRY'') (Some ''cambio manual de canal''),
           Log_line (''Cambio manual solicitado: '' @ slug)] @ after_process_item ''retry'' item))) =
       map (refresh_item env (selection_of a)) (take i (queue_items a) @ drop (Suc i) (queue_items a))
   \<and> url (last (queue_items (pump_ui_queue env a
         ([Update_item u (Some ''RETRY'') (Some ''cambio manual de canal''),
           Log_line (''Cambio manual solicitado: '' @ slug)] @ after_process_item ''retry'' item)))) = u
   \<and> sublist ''manual'' (notes (last (queue_items (pump_ui_queue env a
         ([Update_item u (Some ''RETRY'') (Some ''cambio manual de canal''),
           Log_line (''Cambio manual solicitado: '' @ slug)] @ after_process_item ''retry'' item)))))"
proof -
  define q where "q = queue_items a"
  define item3 where "item3 = (q ! i)\<lparr>notes := ''cambio manual de canal'',
            status := (if item_done (q ! i) then ''FINISHED'' else ''RETRY'')\<rparr>"
  define q1 where "q1 = map (refresh_item env (selection_of a)) (q[i := item3])"
  define queue' where "queue' = queue_items (pump_ui_queue env a
         ([Update_item u (Some ''RETRY'') (Some ''cambio manual de canal''),
           Log_line (''Cambio manual solicitado: '' @ slug)] @ after_process_item ''retry'' item))"
  have i: "i < length q" "url (q ! i) = u"
    using find_item_by_url_Some[OF assms(3)] by (simp_all add: q_def)
  have posted: "watch_iteration answer t p w forced item u slug next_poll next_tick =
      (forced - {strip u},
       [Update_item u (Some ''RETRY'') (Some ''cambio manual de canal''),
        Log_line (''Cambio manual solicitado: '' @ slug)],
       Returned ''retry'')"
    using assms(1,2) by (rule forced_switch_messages)
  have queue: "queue' = take i q1 @ drop (Suc i) q1 @ [q1 ! i]"
    unfolding queue'_def q1_def item3_def q_def
    by (rule forced_switch_handled[OF assms(3,4)])
  have moved: "last queue' = refresh_item env (selection_of a) item3"
    using i(1) by (simp add: queue q1_def)
  have others: "butlast queue' = map (refresh_item env (selection_of a)) (take i q @ drop (Suc i) q)"
  proof -
    have "butlast queue' = take i q1 @ drop (Suc i) q1"
      unfolding queue by (simp add: butlast_append)
    also have "\<dots> = map (refresh_item env (selection_of a)) (take i (q[i := item3]) @ drop (Suc i) (q[i := item3]))"
      by (simp add: q1_def take_map drop_map)
    finally show ?thesis by simp
  qed
  have st: "status (last queue') =
       (if is_progress_campaign_finished (resolve_item_progress_campaign (q ! i)
             (progress_by_id (selection_of a)) (progress_by_name (selection_of a)))
        then ''FINISHED''
        else if is_campaign_expired env (resolve_queue_item_campaign (q ! i)
             (campaign_by_id (selection_of a)) (campaign_by_name (selection_of a)))
        then ''EXPIRED''
        else if item_done (q ! i) then ''FINISHED'' else ''RETRY'')"
    unfolding moved refresh_item_status by (simp add: item3_def)
  have u: "url (last queue') = u"
    unfolding moved using i(2) by (simp add: item3_def)
  have "notes (last queue') = ''cambio '' @ ''manual'' @ '' de canal''"
    unfolding moved by (simp add: item3_def)
  then have manual: "sublist ''manual'' (notes (last queue'))"
    by (simp only: sublist_appendI)
  show ?thesis
    using posted st moved others u manual
    unfolding queue'_def item3_def q_def by (intro conjI)
qed

text \<open>
  The scenario of the spec: the item of \<open>foo\<close> is \<open>LIVE\<close> at the head of a queue of two, a
  switch is requested for its URL. The request is consumed and the item is at the tail
  with the status \<open>RETRY\<close>.
\<close>

theorem forced_switch_moves_item_witness:
  "fst (watch_iteration (Inr (JDict [(''live'', JBool True)])) 10 20 60 {''https://kick.com/foo''}
         \<lparr>url = ''https://kick.com/foo'', minutes_target = 0, elapsed_seconds = 120, status = ''LIVE'',
           campaign_id = None, campaign_name = None, category_id = None, notes = ''viewers=7''\<rparr>
         ''https://kick.com/foo'' ''foo'' 0 30) = {}
   \<and> status (last (queue_items (pump_ui_queue
         \<lparr>live_status_of = (\<lambda>slug. Inl ValueError), clock = 10, ends_at_reached = (\<lambda>stamp. False)\<rparr>
         \<lparr>queue_items =
            [\<lparr>url = ''https://kick.com/foo'', minutes_target = 0, elapsed_seconds = 120, status = ''LIVE'',
              campaign_id = None, campaign_name = None, category_id = None, notes = ''viewers=7''\<rparr>,
             \<lparr>url = ''https://kick.com/bar'', minutes_target = 0, elapsed_seconds = 0, status = ''PENDING'',
              campaign_id = None, campaign_name = None, category_id = None, notes = []\<rparr>],
          campaigns = [], progress = [], preferred_games_cached = [],
          retry_campaign_hint_id = None, retry_campaign_hint_name = None,
          channel_live_cache = Map.empty, force_switch_urls = {''https://kick.com/foo''}\<rparr>
         ([Update_item ''https://kick.com/foo'' (Some ''RETRY'') (Some ''cambio manual de canal''),
           Log_line (''Cambio manual solicitado: '' @ ''foo'')]
          @ after_process_item ''retry''
              \<lparr>url = ''https://kick.com/foo'', minutes_target = 0, elapsed_seconds = 120, status = ''LIVE'',
                campaign_id = None, campaign_name = None, category_id = None, notes = ''viewers=7''\<rparr>)))) = ''RETRY''"
proof -
  let ?item = "\<lparr>url = ''https://kick.com/foo'', minutes_target = 0, elapsed_seconds = 120, status = ''LIVE'',
           campaign_id = None, campaign_name = None, category_id = None, notes = ''viewers=7''\<rparr>"
  let ?env = "\<lparr>live_status_of = (\<lambda>slug. Inl ValueError), clock = 10, ends_at_reached = (\<lambda>stamp. False)\<rparr>"
  let ?a = "\<lparr>queue_items =
            [?item,
             \<lparr>url = ''https://kick.com/bar'', minutes_target = 0, elapsed_seconds = 0, status = ''PENDING'',
              campaign_id = None, campaign_name = None, category_id = None, notes = []\<rparr>],
          campaigns = [], progress = [], preferred_games_cached = [],
          retry_campaign_hint_id = None, retry_campaign_hint_name = None,
          channel_live_cache = Map.empty, force_switch_urls = {''https://kick.com/foo''}\<rparr>"
  have h1: "strip ''https://kick.com/foo'' \<noteq> []" by code_simp
  have h2: "strip ''https://kick.com/foo'' \<in> {''https://kick.com/foo''}" by code_simp
  have h3: "find_item_by_url (queue_items ?a) ''https://kick.com/foo'' = Some 0" by code_simp
  have h4: "url ?item = ''https://kick.com/foo''" by simp
  note t = forced_switch_moves_item[where env = ?env and a = ?a and item = ?item and slug = "''foo''"
      and answer = "Inr (JDict [(''live'', JBool True)])" and t = 10 and p = 20 and w = 60
      and next_poll = 0 and next_tick = 30, OF h1 h2 h3 h4]
  have rest: "{''https://kick.com/foo''} - {strip ''https://kick.com/foo''} = ({} :: string set)"
    by code_simp
  have consumed: "fst (watch_iteration (Inr (JDict [(''live'', JBool True)])) 10 20 60 {''https://kick.com/foo''}
         ?item ''https://kick.com/foo'' ''foo'' 0 30) = {}"
    unfolding t[THEN conjunct1] fst_conv by (rule rest)
  have c1: "\<not> is_progress_campaign_finished (resolve_item_progress_campaign (queue_items ?a ! 0)
             (progress_by_id (selection_of ?a)) (progress_by_name (selection_of ?a)))"
    by code_simp
  have c2: "\<not> is_campaign_expired ?env (resolve_queue_item_campaign (queue_items ?a ! 0)
             (campaign_by_id (selection_of ?a)) (campaign_by_name (selection_of ?a)))"
    by code_simp
  have c3: "\<not> item_done (queue_items ?a ! 0)" by code_simp
  have retry: "status (last (queue_items (pump_ui_queue ?env ?a
         ([Update_item ''https://kick.com/foo'' (Some ''RETRY'') (Some ''cambio manual de canal''),
           Log_line (''Cambio manual solicitado: '' @ ''foo'')]
          @ after_process_item ''retry'' ?item)))) = ''RETRY''"
    unfolding t[THEN conjunct2, THEN conjunct1] using c1 c2 c3 by (simp only: if_False)
  show ?thesis by (intro conjI consumed retry)
qed

text \<open>
  Claim C5 as stated fails: when the campaign of the watched item has expired, the
  refresh of the table that ends the update stores \<open>EXPIRED\<close>, and the item at the tail
  does not have the status \<open>RETRY\<close>.
\<close>

theorem forced_switch_status_not_retry:
  "status (last (queue_items (pump_ui_queue
     \<lparr>live_status_of = (\<lambda>slug. Inl ValueError), clock = 10, ends_at_reached = (\<lambda>stamp. False)\<rparr>
     \<lparr>queue_items =
        [\<lparr>url = ''https://kick.com/foo'', minutes_target = 0, elapsed_seconds = 120, status = ''LIVE'',
          campaign_id = Some ''x'', campaign_name = Some ''X'', category_id = None, notes = ''viewers=7''\<rparr>,
         \<lparr>url = ''https://kick.com/bar'', minutes_target = 0, elapsed_seconds = 0, status = ''PENDING'',
          campaign_id = None, campaign_name = None, category_id = None, notes = []\<rparr>],
      campaigns =
        [\<lparr>c_id = ''x'', c_name = ''X'', c_game = ''G'', c_game_slug = [], c_game_image = [],
          c_category_id = None, c_status = ''expired'', c_starts_at = JNull, c_ends_at = JNull,
          c_rewards = [], c_channels = [], c_progress_status = ''not_started'', c_progress_units = 0,
          c_raw = []\<rparr>],
      progress = [], preferred_games_cached = [],
      retry_campaign_hint_id = None, retry_campaign_hint_name = None,
      channel_live_cache = Map.empty, force_switch_urls = {''https://kick.com/foo''}\<rparr>
     (fst (snd (watch_iteration (Inr (JDict [(''live'', JBool True)])) 10 20 60 {''https://kick.com/foo''}
         \<lparr>url = ''https://kick.com/foo'', minutes_target = 0, elapsed_seconds = 120, status = ''LIVE'',
           campaign_id = Some ''x'', campaign_name = Some ''X'', category_id = None, notes = ''viewers=7''\<rparr>
         ''https://kick.com/foo'' ''foo'' 0 30))
      @ after_process_item ''retry''
         \<lparr>url = ''https://kick.com/foo'', minutes_target = 0, elapsed_seconds = 120, status = ''LIVE'',
           campaign_id = Some ''x'', campaign_name = Some ''X'', category_id = None, notes = ''viewers=7''\<rparr>))))
   = ''EXPIRED''"
  by code_simp

section \<open>Reconciliation of the queue with the desired channels\<close>

lemma existing_by_url_Some:
  "existing_by_url queue u = Some i \<longleftrightarrow>
     i < length queue \<and> url (queue ! i) = u \<and> u \<noteq> [] \<and> u \<notin> url ` set (take i queue)"
proof (induction queue arbitrary: i rule: rev_induct)
  case Nil
  show ?case by (simp add: existing_by_url_def)
next
  case (snoc x xs)
  have unfold: "existing_by_url (xs @ [x]) u =
      (case existing_by_url xs u of
         Some k \<Rightarrow> Some k
       | None \<Rightarrow> if url x = u \<and> u \<noteq> [] then Some (length xs) else None)"
    by (auto simp add: existing_by_url_def map_add_def split: option.split)
  have none: "existing_by_url xs u = None \<longleftrightarrow> u = [] \<or> u \<notin> url ` set xs"
  proof
    assume n: "existing_by_url xs u = None"
    show "u = [] \<or> u \<notin> url ` set xs"
    proof (rule ccontr)
      assume "\<not> (u = [] \<or> u \<notin> url ` set xs)"
      then have "u \<noteq> []" "u \<in> set (map url xs)" by auto
      then obtain k where k: "k < length xs" "url (xs ! k) = u"
        by (auto simp add: in_set_conv_nth)
      then have "(u, k) \<in> set (filter (\<lambda>p. fst p \<noteq> []) (zip (map url xs) [0..<length xs]))"
        using \<open>u \<noteq> []\<close> by (auto simp add: in_set_zip intro!: exI[of _ k])
      then have "u \<in> fst ` set (filter (\<lambda>p. fst p \<noteq> []) (zip (map url xs) [0..<length xs]))"
        by force
      then show False using n by (simp add: existing_by_url_def map_of_eq_None_iff)
    qed
  next
    assume "u = [] \<or> u \<notin> url ` set xs"
    then have "u \<notin> fst ` set (filter (\<lambda>p. fst p \<noteq> []) (zip (map url xs) [0..<length xs]))"
      by (auto dest: set_zip_leftD)
    then show "existing_by_url xs u = None"
      by (simp add: existing_by_url_def map_of_eq_None_iff)
  qed
  show ?case
  proof (cases "existing_by_url xs u")
    case None
    then have n: "u = [] \<or> u \<notin> url ` set xs" by (simp add: none)
    show ?thesis
    proof (cases "i < length xs")
      case True
      then have "url (xs ! i) \<in> url ` set xs" by simp
      then have "\<not> (url (xs ! i) = u \<and> u \<noteq> [])" using n by blast
      then show ?thesis using None True by (auto simp add: unfold nth_append)
    next
      case False
      then show ?thesis using None n by (auto simp add: unfold nth_append)
    qed
  next
    case (Some k)
    then have k: "k < length xs" "url (xs ! k) = u" "u \<noteq> []" "u \<notin> url ` set (take k xs)"
      using snoc.IH[of k] by simp_all
    have "\<not> (u = [] \<or> u \<notin> url ` set xs)" using Some none by simp
    then have mem: "u \<in> url ` set xs" by simp
    show ?thesis
    proof (cases "i < length xs")
      case True
      then show ?thesis using Some snoc.IH[of i] by (simp add: unfold nth_append)
    next
      case False
      then have "k \<noteq> i" using k(1) by simp
      moreover have "u \<in> url ` set (take i (xs @ [x]))" if "i < length (xs @ [x])"
        using that False mem by simp
      ultimately show ?thesis using Some by (auto simp add: unfold)
    qed
  qed
qed

lemma row_url_not_empty: "row_url row \<noteq> []"
  by (simp add: row_url_def url_or_default_def)

lemma map_update_same:
  "f y = f (xs ! i) \<Longrightarrow> map f (xs[i := y]) = map f xs"
  by (cases "i < length xs") (simp_all add: map_update list_update_same_conv list_update_beyond)

lemma relink_item_url [simp]: "url (relink_item row item) = url item"
  by (simp add: relink_item_def)

lemma reconcile_rows_final:
  "final_queue (foldl (reconcile_row E) st rows) =
     final_queue st @ map (\<lambda>row. case E (row_url row) of None \<Rightarrow> Fresh (fresh_item row) | Some i \<Rightarrow> Existing i) rows"
  by (induction rows arbitrary: st) (simp_all add: reconcile_row_def Let_def split: option.split)

lemma reconcile_rows_urls:
  "ordered_urls (foldl (reconcile_row E) st rows) = ordered_urls st \<union> row_url ` set rows"
  by (induction rows arbitrary: st) (auto simp add: reconcile_row_def Let_def split: option.split)

lemma reconcile_rows_removed:
  "removed (foldl (reconcile_row E) st rows) = removed st"
  by (induction rows arbitrary: st) (simp_all add: reconcile_row_def Let_def split: option.split)

lemma reconcile_rows_urls_of_store:
  "map url (store (foldl (reconcile_row E) st rows)) = map url (store st)"
proof (induction rows arbitrary: st)
  case Nil
  show ?case by simp
next
  case (Cons row rows)
  have "map url (store (reconcile_row E st row)) = map url (store st)"
    by (cases "E (row_url row)")
       (simp_all add: reconcile_row_def Let_def map_update_same)
  then show ?case using Cons.IH[of "reconcile_row E st row"] by simp
qed

lemma reconcile_rows_store:
  "\<forall>row \<in> set rows. E (row_url row) \<noteq> Some i \<Longrightarrow>
     store (foldl (reconcile_row E) st rows) ! i = store st ! i"
proof (induction rows arbitrary: st)
  case Nil
  show ?case by simp
next
  case (Cons row rows)
  have "store (reconcile_row E st row) ! i = store st ! i"
    using Cons.prems by (cases "E (row_url row)") (auto simp add: reconcile_row_def Let_def)
  then show ?case using Cons by simp
qed

lemma keep_items_store [simp]:
  "store (foldl keep_item st xs) = store st"
  by (induction xs arbitrary: st) (simp_all add: keep_item_def Let_def)

lemma keep_items_urls [simp]:
  "ordered_urls (foldl keep_item st xs) = ordered_urls st"
  by (induction xs arbitrary: st) (simp_all add: keep_item_def Let_def)

lemma keep_items_final:
  "final_queue (foldl keep_item st xs) =
     final_queue st @ map Existing
       (filter (\<lambda>i. url (store st ! i) \<notin> ordered_urls st \<and> \<not> is_auto_games_channel_item (store st ! i)) xs)"
  by (induction xs arbitrary: st) (simp_all add: keep_item_def Let_def)

lemma keep_items_removed:
  "removed (foldl keep_item st xs) =
     removed st + length
       (filter (\<lambda>i. url (store st ! i) \<notin> ordered_urls st \<and> is_auto_games_channel_item (store st ! i)) xs)"
  by (induction xs arbitrary: st) (simp_all add: keep_item_def Let_def)

lemma keep_items_added [simp]: "added (foldl keep_item st xs) = added st"
  by (induction xs arbitrary: st) (simp_all add: keep_item_def Let_def)

lemma keep_items_updated [simp]: "updated (foldl keep_item st xs) = updated st"
  by (induction xs arbitrary: st) (simp_all add: keep_item_def Let_def)

lemma reconcile_store_outside:
  assumes "i < length queue" "url (queue ! i) \<notin> row_url ` set rows"
  shows "store (reconcile queue rows) ! i = queue ! i"
proof -
  have "\<forall>row \<in> set rows. existing_by_url queue (row_url row) \<noteq> Some i"
    using assms(2) by (auto simp add: existing_by_url_Some)
  then show ?thesis by (simp add: reconcile_def reconcile_rows_store)
qed

lemma reconcile_store_urls:
  "map url (store (reconcile queue rows)) = map url queue"
  by (simp add: reconcile_def reconcile_rows_urls_of_store)

lemma reconcile_store_url:
  assumes "i < length queue"
  shows "url (store (reconcile queue rows) ! i) = url (queue ! i)"
proof -
  have "length (store (reconcile queue rows)) = length queue"
    using map_eq_imp_length_eq[OF reconcile_store_urls] .
  then have "url (store (reconcile queue rows) ! i) = map url (store (reconcile queue rows)) ! i"
    using assms by simp
  then show ?thesis using assms by (simp add: reconcile_store_urls)
qed

lemma reconcile_final:
  "final_queue (reconcile queue rows) =
     map (\<lambda>row. case existing_by_url queue (row_url row) of
                  None \<Rightarrow> Fresh (fresh_item row) | Some i \<Rightarrow> Existing i) rows
     @ map Existing
         (filter (\<lambda>i. url (queue ! i) \<notin> row_url ` set rows \<and> \<not> is_auto_games_channel_item (queue ! i))
            [0..<length queue])"
proof -
  define st1 where "st1 = foldl (reconcile_row (existing_by_url queue))
          \<lparr>store = queue, added = 0, updated = 0, removed = 0, ordered_urls = {}, final_queue = []\<rparr> rows"
  have urls: "ordered_urls st1 = row_url ` set rows"
    by (simp add: st1_def reconcile_rows_urls)
  have st: "store st1 = store (reconcile queue rows)"
    by (simp add: reconcile_def st1_def)
  have same: "filter (\<lambda>i. url (store st1 ! i) \<notin> ordered_urls st1 \<and> \<not> is_auto_games_channel_item (store st1 ! i))
                [0..<length queue] =
              filter (\<lambda>i. url (queue ! i) \<notin> row_url ` set rows \<and> \<not> is_auto_games_channel_item (queue ! i))
                [0..<length queue]"
  proof (rule filter_cong[OF refl])
    fix i assume "i \<in> set [0..<length queue]"
    then have i: "i < length queue" by simp
    show "(url (store st1 ! i) \<notin> ordered_urls st1 \<and> \<not> is_auto_games_channel_item (store st1 ! i)) =
          (url (queue ! i) \<notin> row_url ` set rows \<and> \<not> is_auto_games_channel_item (queue ! i))"
      unfolding st urls using reconcile_store_url[OF i, of rows] reconcile_store_outside[OF i, of rows]
      by auto
  qed
  have "final_queue (reconcile queue rows) = final_queue (foldl keep_item st1 [0..<length queue])"
    by (simp add: reconcile_def st1_def)
  also have "\<dots> = final_queue st1 @ map Existing
       (filter (\<lambda>i. url (store st1 ! i) \<notin> ordered_urls st1 \<and> \<not> is_auto_games_channel_item (store st1 ! i))
          [0..<length queue])"
    by (rule keep_items_final)
  finally show ?thesis unfolding same by (simp add: st1_def reconcile_rows_final)
qed

lemma reconcile_removed:
  "removed (reconcile queue rows) =
     length (filter (\<lambda>item. url item \<notin> row_url ` set rows \<and> is_auto_games_channel_item item) queue)"
proof -
  define st1 where "st1 = foldl (reconcile_row (existing_by_url queue))
          \<lparr>store = queue, added = 0, updated = 0, removed = 0, ordered_urls = {}, final_queue = []\<rparr> rows"
  define P where "P = (\<lambda>item. url item \<notin> row_url ` set rows \<and> is_auto_games_channel_item item)"
  have urls: "ordered_urls st1 = row_url ` set rows"
    by (simp add: st1_def reconcile_rows_urls)
  have st: "store st1 = store (reconcile queue rows)"
    by (simp add: reconcile_def st1_def)
  have same: "filter (\<lambda>i. url (store st1 ! i) \<notin> ordered_urls st1 \<and> is_auto_games_channel_item (store st1 ! i))
                [0..<length queue] = filter (\<lambda>i. P (queue ! i)) [0..<length queue]"
  proof (rule filter_cong[OF refl])
    fix i assume "i \<in> set [0..<length queue]"
    then have i: "i < length queue" by simp
    show "(url (store st1 ! i) \<notin> ordered_urls st1 \<and> is_auto_games_channel_item (store st1 ! i)) = P (queue ! i)"
      unfolding st urls P_def using reconcile_store_url[OF i, of rows] reconcile_store_outside[OF i, of rows]
      by auto
  qed
  have "map ((!) queue) (filter (\<lambda>i. P (queue ! i)) [0..<length queue]) = filter P queue"
    by (rule map_nth_filter_positions)
  then have len: "length (filter (\<lambda>i. P (queue ! i)) [0..<length queue]) = length (filter P queue)"
    using length_map[of "(!) queue" "filter (\<lambda>i. P (queue ! i)) [0..<length queue]"] by simp
  have "removed (reconcile queue rows) = removed (foldl keep_item st1 [0..<length queue])"
    by (simp add: reconcile_def st1_def)
  also have "\<dots> = removed st1 + length
       (filter (\<lambda>i. url (store st1 ! i) \<notin> ordered_urls st1 \<and> is_auto_games_channel_item (store st1 ! i))
          [0..<length queue])"
    by (rule keep_items_removed)
  finally show ?thesis unfolding same len by (simp add: st1_def reconcile_rows_removed P_def)
qed

lemma target_of_row:
  "Existing i \<in> set (map (\<lambda>row. case E (row_url row) of
                                None \<Rightarrow> Fresh (fresh_item row) | Some k \<Rightarrow> Existing k) rows)
     \<longleftrightarrow> (\<exists>row \<in> set rows. E (row_url row) = Some i)"
proof (induction rows)
  case Nil
  show ?case by simp
next
  case (Cons row rows)
  then show ?case by (cases "E (row_url row)") auto
qed

lemma reconcile_kept:
  assumes i: "i < length queue"
  shows "Existing i \<in> set (final_queue (reconcile queue rows)) \<longleftrightarrow>
     (if url (queue ! i) \<in> row_url ` set rows
      then url (queue ! i) \<notin> url ` set (take i queue)
      else \<not> is_auto_games_channel_item (queue ! i))"
proof -
  define S where "S = url ` set (take i queue)"
  define A where "A = url (queue ! i)"
  have "(\<exists>row \<in> set rows. existing_by_url queue (row_url row) = Some i) \<longleftrightarrow>
      (\<exists>row \<in> set rows. A = row_url row \<and> row_url row \<notin> S)"
    unfolding existing_by_url_Some S_def A_def using i row_url_not_empty by simp
  also have "\<dots> \<longleftrightarrow> A \<in> row_url ` set rows \<and> A \<notin> S"
    by auto
  finally have first: "(\<exists>row \<in> set rows. existing_by_url queue (row_url row) = Some i) \<longleftrightarrow>
      url (queue ! i) \<in> row_url ` set rows \<and> url (queue ! i) \<notin> url ` set (take i queue)"
    unfolding S_def A_def .
  define P where "P = (\<lambda>i. url (queue ! i) \<notin> row_url ` set rows \<and> \<not> is_auto_games_channel_item (queue ! i))"
  have kept: "Existing i \<in> set (map Existing (filter P [0..<length queue])) \<longleftrightarrow> P i"
    using i by auto
  have "Existing i \<in> set (final_queue (reconcile queue rows)) \<longleftrightarrow>
      Existing i \<in> set (map (\<lambda>row. case existing_by_url queue (row_url row) of
                                None \<Rightarrow> Fresh (fresh_item row) | Some k \<Rightarrow> Existing k) rows)
      \<or> Existing i \<in> set (map Existing (filter P [0..<length queue]))"
    by (simp only: reconcile_final set_append Un_iff P_def)
  then have "Existing i \<in> set (final_queue (reconcile queue rows)) \<longleftrightarrow>
      (\<exists>row \<in> set rows. existing_by_url queue (row_url row) = Some i) \<or> P i"
    unfolding target_of_row kept .
  then show ?thesis unfolding first P_def by auto
qed

lemma order_unchanged:
  assumes "\<not> order_or_size_changed final n"
  shows "final = map Existing [0..<n]"
proof (rule nth_equalityI)
  show len: "length final = length (map Existing [0..<n])"
    using assms by (simp add: order_or_size_changed_def)
  fix i assume "i < length final"
  then have i: "i < n" using len by simp
  then have "(final ! i, i) \<in> set (zip final [0..<n])"
    using len by (auto simp add: in_set_zip)
  then have "final ! i = Existing i"
    using assms by (auto simp add: order_or_size_changed_def list_ex_iff)
  then show "final ! i = map Existing [0..<n] ! i" using i by simp
qed

lemma reconcile_queue:
  "(if order_or_size_changed (final_queue (reconcile queue rows)) (length queue)
    then map (deref (store (reconcile queue rows))) (final_queue (reconcile queue rows))
    else store (reconcile queue rows))
   = map (deref (store (reconcile queue rows))) (final_queue (reconcile queue rows))"
proof (cases "order_or_size_changed (final_queue (reconcile queue rows)) (length queue)")
  case True
  then show ?thesis by simp
next
  case False
  have len: "length (store (reconcile queue rows)) = length queue"
    using map_eq_imp_length_eq[OF reconcile_store_urls] .
  have "map (deref (store (reconcile queue rows))) (map Existing [0..<length (store (reconcile queue rows))])
      = store (reconcile queue rows)"
    by (simp add: deref_def map_nth o_def)
  then have "map (deref (store (reconcile queue rows))) (map Existing [0..<length queue])
      = store (reconcile queue rows)"
    unfolding len .
  then show ?thesis using False order_unchanged[OF False] by simp
qed

lemma discovery_run:
  assumes "campaigns a \<noteq> []"
  shows "snd (auto_queue_selected_games env a) = reconcile (queue_items a) (snd (desired_rows env a))"
    and "queue_items (fst (auto_queue_selected_games env a)) =
           map (deref (store (reconcile (queue_items a) (snd (desired_rows env a)))))
             (final_queue (reconcile (queue_items a) (snd (desired_rows env a))))"
proof -
  obtain normalized mine_all selected where
    f: "preferred_game_filter (preferred_games_cached a) = (normalized, mine_all, selected)"
    by (cases "preferred_game_filter (preferred_games_cached a)") auto
  then have guard: "mine_all \<or> selected \<noteq> {}"
    using filter_never_empty[of "preferred_games_cached a"] by simp
  obtain cache' ordered where d: "desired_rows env a = (cache', ordered)"
    by (cases "desired_rows env a") auto
  show "snd (auto_queue_selected_games env a) = reconcile (queue_items a) (snd (desired_rows env a))"
    using assms guard by (auto simp add: auto_queue_selected_games_def f d Let_def)
  show "queue_items (fst (auto_queue_selected_games env a)) =
           map (deref (store (reconcile (queue_items a) (snd (desired_rows env a)))))
             (final_queue (reconcile (queue_items a) (snd (desired_rows env a))))"
    using assms guard reconcile_queue[of "queue_items a" ordered]
    by (auto simp add: auto_queue_selected_games_def f d Let_def)
qed


text \<open>
  Claim C3, as the code has it. The run returns at once when the list of campaigns is
  empty. Otherwise the desired set is the set of the URLs of the rows, and the new queue
  is \<open>final_queue\<close> read in the store of the objects. The object at position \<open>i\<close> of the old
  queue is in the new queue exactly in two cases: its URL is desired and no earlier item
  has the same URL; or its URL is not desired and its notes do not carry the marker. An
  item whose URL is not desired is not changed, and \<open>removed\<close> counts the items with the
  marker whose URL is not desired. So an item with the marker whose URL is not desired is
  removed, an item without the marker whose URL is not desired is kept as it is, and of
  the items with a desired URL the first one is kept and every later one is dropped,
  with or without the marker.
\<close>

theorem discovery_removal:
  assumes "campaigns a \<noteq> []" and "i < length (queue_items a)"
  shows "queue_items (fst (auto_queue_selected_games env a)) =
           map (deref (store (snd (auto_queue_selected_games env a))))
             (final_queue (snd (auto_queue_selected_games env a)))
       \<and> (Existing i \<in> set (final_queue (snd (auto_queue_selected_games env a))) \<longleftrightarrow>
            (if url (queue_items a ! i) \<in> row_url ` set (snd (desired_rows env a))
             then url (queue_items a ! i) \<notin> url ` set (take i (queue_items a))
             else \<not> is_auto_games_channel_item (queue_items a ! i)))
       \<and> (url (queue_items a ! i) \<notin> row_url ` set (snd (desired_rows env a)) \<longrightarrow>
            store (snd (auto_queue_selected_games env a)) ! i = queue_items a ! i)
       \<and> removed (snd (auto_queue_selected_games env a)) =
            length (filter (\<lambda>item. url item \<notin> row_url ` set (snd (desired_rows env a))
                                   \<and> is_auto_games_channel_item item) (queue_items a))"
proof -
  have run: "snd (auto_queue_selected_games env a) = reconcile (queue_items a) (snd (desired_rows env a))"
    using assms(1) by (rule discovery_run(1))
  have queue: "queue_items (fst (auto_queue_selected_games env a)) =
           map (deref (store (snd (auto_queue_selected_games env a))))
             (final_queue (snd (auto_queue_selected_games env a)))"
    unfolding run using assms(1) by (rule discovery_run(2))
  have kept: "Existing i \<in> set (final_queue (snd (auto_queue_selected_games env a))) \<longleftrightarrow>
            (if url (queue_items a ! i) \<in> row_url ` set (snd (desired_rows env a))
             then url (queue_items a ! i) \<notin> url ` set (take i (queue_items a))
             else \<not> is_auto_games_channel_item (queue_items a ! i))"
    unfolding run using assms(2) by (rule reconcile_kept)
  have same: "url (queue_items a ! i) \<notin> row_url ` set (snd (desired_rows env a)) \<longrightarrow>
            store (snd (auto_queue_selected_games env a)) ! i = queue_items a ! i"
    unfolding run using assms(2) by (simp add: reconcile_store_outside)
  have count: "removed (snd (auto_queue_selected_games env a)) =
            length (filter (\<lambda>item. url item \<notin> row_url ` set (snd (desired_rows env a))
                                   \<and> is_auto_games_channel_item item) (queue_items a))"
    unfolding run by (rule reconcile_removed)
  show ?thesis using queue kept same count by (intro conjI)
qed

text \<open>
  A run over a queue of three items, with one campaign whose only channel is \<open>foo\<close>. The
  first item carries the marker and its channel \<open>gone\<close> is no longer desired: it is
  removed. The second item was added by hand for a channel that is not desired: it is
  kept.
\<close>

theorem discovery_removal_witness:
  "Existing 0 \<notin> set (final_queue (snd (auto_queue_selected_games
      \<lparr>live_status_of = (\<lambda>slug. Inr (JDict [(''live'', JBool True), (''viewer_count'', JInt 7)])),
        clock = 10, ends_at_reached = (\<lambda>stamp. False)\<rparr>
      \<lparr>queue_items =
        [\<lparr>url = ''https://kick.com/gone'', minutes_target = 0, elapsed_seconds = 0, status = ''PENDING'',
          campaign_id = Some ''x'', campaign_name = Some ''X'', category_id = None,
          notes = ''source=auto-games-channel | game=G | auto=gone (3 viewers)''\<rparr>,
         \<lparr>url = ''https://kick.com/zed'', minutes_target = 30, elapsed_seconds = 60, status = ''PENDING'',
          campaign_id = None, campaign_name = None, category_id = None, notes = []\<rparr>,
         \<lparr>url = ''https://kick.com/foo'', minutes_target = 0, elapsed_seconds = 0, status = ''PENDING'',
          campaign_id = Some ''x'', campaign_name = Some ''X'', category_id = None,
          notes = ''source=auto-games-channel | game=G | auto=foo (7 viewers)''\<rparr>],
       campaigns =
        [\<lparr>c_id = ''x'', c_name = ''X'', c_game = ''G'', c_game_slug = [], c_game_image = [],
          c_category_id = None, c_status = ''active'', c_starts_at = JNull, c_ends_at = JNull,
          c_rewards = [],
          c_channels = [\<lparr>ch_slug = ''foo'', ch_username = ''foo'', ch_url = ''https://kick.com/foo'',
                          ch_profile_picture = []\<rparr>],
          c_progress_status = ''not_started'', c_progress_units = 0, c_raw = []\<rparr>],
       progress = [], preferred_games_cached = [],
       retry_campaign_hint_id = None, retry_campaign_hint_name = None,
       channel_live_cache = Map.empty, force_switch_urls = {}\<rparr>)))
   \<and> Existing 1 \<in> set (final_queue (snd (auto_queue_selected_games
      \<lparr>live_status_of = (\<lambda>slug. Inr (JDict [(''live'', JBool True), (''viewer_count'', JInt 7)])),
        clock = 10, ends_at_reached = (\<lambda>stamp. False)\<rparr>
      \<lparr>queue_items =
        [\<lparr>url = ''https://kick.com/gone'', minutes_target = 0, elapsed_seconds = 0, status = ''PENDING'',
          campaign_id = Some ''x'', campaign_name = Some ''X'', category_id = None,
          notes = ''source=auto-games-channel | game=G | auto=gone (3 viewers)''\<rparr>,
         \<lparr>url = ''https://kick.com/zed'', minutes_target = 30, elapsed_seconds = 60, status = ''PENDING'',
          campaign_id = None, campaign_name = None, category_id = None, notes = []\<rparr>,
         \<lparr>url = ''https://kick.com/foo'', minutes_target = 0, elapsed_seconds = 0, status = ''PENDING'',
          campaign_id = Some ''x'', campaign_name = Some ''X'', category_id = None,
          notes = ''source=auto-games-channel | game=G | auto=foo (7 viewers)''\<rparr>],
       campaigns =
        [\<lparr>c_id = ''x'', c_name = ''X'', c_game = ''G'', c_game_slug = [], c_game_image = [],
          c_category_id = None, c_status = ''active'', c_starts_at = JNull, c_ends_at = JNull,
          c_rewards = [],
          c_channels = [\<lparr>ch_slug = ''foo'', ch_username = ''foo'', ch_url = ''https://kick.com/foo'',
                          ch_profile_picture = []\<rparr>],
          c_progress_status = ''not_started'', c_progress_units = 0, c_raw = []\<rparr>],
       progress = [], preferred_games_cached = [],
       retry_campaign_hint_id = None, retry_campaign_hint_name = None,
       channel_live_cache = Map.empty, force_switch_urls = {}\<rparr>)))
   \<and> store (snd (auto_queue_selected_games
      \<lparr>live_status_of = (\<lambda>slug. Inr (JDict [(''live'', JBool True), (''viewer_count'', JInt 7)])),
        clock = 10, ends_at_reached = (\<lambda>stamp. False)\<rparr>
      \<lparr>queue_items =
        [\<lparr>url = ''https://kick.com/gone'', minutes_target = 0, elapsed_seconds = 0, status = ''PENDING'',
          campaign_id = Some ''x'', campaign_name = Some ''X'', category_id = None,
          notes = ''source=auto-games-channel | game=G | auto=gone (3 viewers)''\<rparr>,
         \<lparr>url = ''https://kick.com/zed'', minutes_target = 30, elapsed_seconds = 60, status = ''PENDING'',
          campaign_id = None, campaign_name = None, category_id = None, notes = []\<rparr>,
         \<lparr>url = ''https://kick.com/foo'', minutes_target = 0, elapsed_seconds = 0, status = ''PENDING'',
          campaign_id = Some ''x'', campaign_name = Some ''X'', category_id = None,
          notes = ''source=auto-games-channel | game=G | auto=foo (7 viewers)''\<rparr>],
       campaigns =
        [\<lparr>c_id = ''x'', c_name = ''X'', c_game = ''G'', c_game_slug = [], c_game_image = [],
          c_category_id = None, c_status = ''active'', c_starts_at = JNull, c_ends_at = JNull,
          c_rewards = [],
          c_channels = [\<lparr>ch_slug = ''foo'', ch_username = ''foo'', ch_url = ''https://kick.com/foo'',
                          ch_profile_picture = []\<rparr>],
          c_progress_status = ''not_started'', c_progress_units = 0, c_raw = []\<rparr>],
       progress = [], preferred_games_cached = [],
       retry_campaign_hint_id = None, retry_campaign_hint_name = None,
       channel_live_cache = Map.empty, force_switch_urls = {}\<rparr>)) ! 1 =
      \<lparr>url = ''https://kick.com/zed'', minutes_target = 30, elapsed_seconds = 60, status = ''PENDING'',
          campaign_id = None, campaign_name = None, category_id = None, notes = []\<rparr>"
proof -
  let ?env = "\<lparr>live_status_of = (\<lambda>slug. Inr (JDict [(''live'', JBool True), (''viewer_count'', JInt 7)])),
        clock = 10, ends_at_reached = (\<lambda>stamp. False)\<rparr>"
  let ?a = "\<lparr>queue_items =
        [\<lparr>url = ''https://kick.com/gone'', minutes_target = 0, elapsed_seconds = 0, status = ''PENDING'',
          campaign_id = Some ''x'', campaign_name = Some ''X'', category_id = None,
          notes = ''source=auto-games-channel | game=G | auto=gone (3 viewers)''\<rparr>,
         \<lparr>url = ''https://kick.com/zed'', minutes_target = 30, elapsed_seconds = 60, status = ''PENDING'',
          campaign_id = None, campaign_name = None, category_id = None, notes = []\<rparr>,
         \<lparr>url = ''https://kick.com/foo'', minutes_target = 0, elapsed_seconds = 0, status = ''PENDING'',
          campaign_id = Some ''x'', campaign_name = Some ''X'', category_id = None,
          notes = ''source=auto-games-channel | game=G | auto=foo (7 viewers)''\<rparr>],
       campaigns =
        [\<lparr>c_id = ''x'', c_name = ''X'', c_game = ''G'', c_game_slug = [], c_game_image = [],
          c_category_id = None, c_status = ''active'', c_starts_at = JNull, c_ends_at = JNull,
          c_rewards = [],
          c_channels = [\<lparr>ch_slug = ''foo'', ch_username = ''foo'', ch_url = ''https://kick.com/foo'',
                          ch_profile_picture = []\<rparr>],
          c_progress_status = ''not_started'', c_progress_units = 0, c_raw = []\<rparr>],
       progress = [], preferred_games_cached = [],
       retry_campaign_hint_id = None, retry_campaign_hint_name = None,
       channel_live_cache = Map.empty, force_switch_urls = {}\<rparr>"
  have h: "campaigns ?a \<noteq> []" by simp
  have i0: "0 < length (queue_items ?a)" by simp
  have i1: "1 < length (queue_items ?a)" by simp
  note t0 = discovery_removal[where env = ?env and a = ?a and i = 0, OF h i0, THEN conjunct2, THEN conjunct1]
  note t1 = discovery_removal[where env = ?env and a = ?a and i = 1, OF h i1, THEN conjunct2, THEN conjunct1]
  have u0: "url (queue_items ?a ! 0) \<notin> row_url ` set (snd (desired_rows ?env ?a))" by code_simp
  have m0: "is_auto_games_channel_item (queue_items ?a ! 0)" by code_simp
  have u1: "url (queue_items ?a ! 1) \<notin> row_url ` set (snd (desired_rows ?env ?a))" by code_simp
  have m1: "\<not> is_auto_games_channel_item (queue_items ?a ! 1)" by code_simp
  have removed_0: "Existing 0 \<notin> set (final_queue (snd (auto_queue_selected_games ?env ?a)))"
    unfolding t0 if_not_P[OF u0] by (rule notI, erule notE, rule m0)
  have kept_1: "Existing 1 \<in> set (final_queue (snd (auto_queue_selected_games ?env ?a)))"
    unfolding t1 if_not_P[OF u1] by (rule m1)
  note s1 = discovery_removal[where env = ?env and a = ?a and i = 1, OF h i1,
      THEN conjunct2, THEN conjunct2, THEN conjunct1, THEN mp, OF u1]
  have q1: "queue_items ?a ! 1 =
      \<lparr>url = ''https://kick.com/zed'', minutes_target = 30, elapsed_seconds = 60, status = ''PENDING'',
          campaign_id = None, campaign_name = None, category_id = None, notes = []\<rparr>"
    by simp
  have same_1: "store (snd (auto_queue_selected_games ?env ?a)) ! 1 =
      \<lparr>url = ''https://kick.com/zed'', minutes_target = 30, elapsed_seconds = 60, status = ''PENDING'',
          campaign_id = None, campaign_name = None, category_id = None, notes = []\<rparr>"
    using s1 unfolding q1 .
  show ?thesis by (intro conjI removed_0 kept_1 same_1)
qed

text \<open>
  Claim C3 as stated fails: two items added by hand have the URL of a desired channel.
  Neither carries the marker, and the run drops the second one.
\<close>

theorem discovery_drops_manual_duplicate:
  "\<not> is_auto_games_channel_item
       \<lparr>url = ''https://kick.com/foo'', minutes_target = 30, elapsed_seconds = 60, status = ''PENDING'',
         campaign_id = None, campaign_name = None, category_id = None, notes = ''mine''\<rparr>
   \<and> final_queue (snd (auto_queue_selected_games
      \<lparr>live_status_of = (\<lambda>slug. Inr (JDict [(''live'', JBool True), (''viewer_count'', JInt 7)])),
        clock = 10, ends_at_reached = (\<lambda>stamp. False)\<rparr>
      \<lparr>queue_items =
        [\<lparr>url = ''https://kick.com/foo'', minutes_target = 0, elapsed_seconds = 0, status = ''PENDING'',
          campaign_id = None, campaign_name = None, category_id = None, notes = []\<rparr>,
         \<lparr>url = ''https://kick.com/foo'', minutes_target = 30, elapsed_seconds = 60, status = ''PENDING'',
          campaign_id = None, campaign_name = None, category_id = None, notes = ''mine''\<rparr>],
       campaigns =
        [\<lparr>c_id = ''x'', c_name = ''X'', c_game = ''G'', c_game_slug = [], c_game_image = [],
          c_category_id = None, c_status = ''active'', c_starts_at = JNull, c_ends_at = JNull,
          c_rewards = [],
          c_channels = [\<lparr>ch_slug = ''foo'', ch_username = ''foo'', ch_url = ''https://kick.com/foo'',
                          ch_profile_picture = []\<rparr>],
          c_progress_status = ''not_started'', c_progress_units = 0, c_raw = []\<rparr>],
       progress = [], preferred_games_cached = [],
       retry_campaign_hint_id = None, retry_campaign_hint_name = None,
       channel_live_cache = Map.empty, force_switch_urls = {}\<rparr>)) = [Existing 0]
   \<and> queue_items (fst (auto_queue_selected_games
      \<lparr>live_status_of = (\<lambda>slug. Inr (JDict [(''live'', JBool True), (''viewer_count'', JInt 7)])),
        clock = 10, ends_at_reached = (\<lambda>stamp. False)\<rparr>
      \<lparr>queue_items =
        [\<lparr>url = ''https://kick.com/foo'', minutes_target = 0, elapsed_seconds = 0, status = ''PENDING'',
          campaign_id = None, campaign_name = None, category_id = None, notes = []\<rparr>,
         \<lparr>url = ''https://kick.com/foo'', minutes_target = 30, elapsed_seconds = 60, status = ''PENDING'',
          campaign_id = None, campaign_name = None, category_id = None, notes = ''mine''\<rparr>],
       campaigns =
        [\<lparr>c_id = ''x'', c_name = ''X'', c_game = ''G'', c_game_slug = [], c_game_image = [],
          c_category_id = None, c_status = ''active'', c_starts_at = JNull, c_ends_at = JNull,
          c_rewards = [],
          c_channels = [\<lparr>ch_slug = ''foo'', ch_username = ''foo'', ch_url = ''https://kick.com/foo'',
                          ch_profile_picture = []\<rparr>],
          c_progress_status = ''not_started'', c_progress_units = 0, c_raw = []\<rparr>],
       progress = [], preferred_games_cached = [],
       retry_campaign_hint_id = None, retry_campaign_hint_name = None,
       channel_live_cache = Map.empty, force_switch_urls = {}\<rparr>)) =
      [\<lparr>url = ''https://kick.com/foo'', minutes_target = 0, elapsed_seconds = 0, status = ''PENDING'',
        campaign_id = Some ''x'', campaign_name = Some ''X'', category_id = None,
        notes = ''source=auto-games-channel | game=G | auto=foo (7 viewers)''\<rparr>]"
  by code_simp

section \<open>A second run of the discovery\<close>










lemma relink_fresh [simp]: "relink_item row (fresh_item row) = fresh_item row"
  by (simp add: relink_item_def fresh_item_def)

lemma relink_relink [simp]: "relink_item row (relink_item row item) = relink_item row item"
  by (simp add: relink_item_def)

lemma fresh_item_url [simp]: "url (fresh_item row) = row_url row"
  by (simp add: fresh_item_def)







section \<open>The items that the loop can return\<close>

lemma finalize_item_status:
  "status (fst (finalize_item env sel item)) =
     (if item_done item
         \<or> is_progress_campaign_finished
              (resolve_item_progress_campaign item (progress_by_id sel) (progress_by_name sel))
      then ''FINISHED''
      else if status item \<in> {''FINISHED'', ''EXPIRED''} then status item
      else if is_campaign_expired env
                (resolve_queue_item_campaign item (campaign_by_id sel) (campaign_by_name sel))
      then ''EXPIRED''
      else if status item = ''STOPPED'' then ''PENDING''
      else status item)"
  by (auto simp add: finalize_item_def Let_def item_done_def)

lemma eligible_iff:
  "eligible env sel item \<longleftrightarrow>
     \<not> item_done item
     \<and> \<not> is_progress_campaign_finished
           (resolve_item_progress_campaign item (progress_by_id sel) (progress_by_name sel))
     \<and> status item \<notin> {''FINISHED'', ''EXPIRED''}
     \<and> \<not> is_campaign_expired env
           (resolve_queue_item_campaign item (campaign_by_id sel) (campaign_by_name sel))
     \<and> \<not> (auto_filter sel
           \<and> (opt_text (campaign_id item) \<noteq> [] \<or> opt_text (campaign_name item) \<noteq> [])
           \<and> (\<exists>c. resolve_queue_item_campaign item (campaign_by_id sel) (campaign_by_name sel) = Some c
                  \<and> casefold (strip (c_game c)) \<noteq> []
                  \<and> casefold (strip (c_game c)) \<notin> selected_games sel))"
  by (auto simp add: eligible_def finalize_item_def skipped_by_game_filter_def Let_def item_done_def
        split: option.splits)

lemma probe_item_status:
  "status (fst (snd (probe_item env cache item campaign))) = status item"
  by (auto simp add: probe_item_def set_item_channel_for_campaign_def split: prod.splits option.splits)

lemma examine_item_status:
  "status (fst (snd (examine_item env sel cache item))) = status (fst (finalize_item env sel item))"
proof -
  obtain item' campaign finished where f: "finalize_item env sel item = (item', campaign, finished)"
    by (cases "finalize_item env sel item") auto
  obtain c i l v where p: "probe_item env cache item' campaign = (c, i, l, v)"
    by (cases "probe_item env cache item' campaign") auto
  have "status i = status item'"
    using probe_item_status[of env cache item' campaign] by (simp add: p)
  then show ?thesis by (simp add: examine_item_def f p)
qed

lemma scan_items_marked:
  assumes "distinct ps"
    and "scan_items env sel ps queue cache fallback_item fallback_live_viewers = (queue', cache', chosen)"
  shows "length queue' = length queue
       \<and> (\<forall>j. j \<notin> set ps \<longrightarrow> queue' ! j = queue ! j)
       \<and> (\<forall>j \<in> set ps. j < length queue \<longrightarrow>
              queue' ! j = queue ! j \<or> status (queue' ! j) = status (fst (finalize_item env sel (queue ! j))))
       \<and> (chosen = None \<longrightarrow>
            (\<forall>j \<in> set ps. j < length queue \<longrightarrow>
               status (queue' ! j) = status (fst (finalize_item env sel (queue ! j)))))"
  using assms
proof (induction ps arbitrary: queue cache fallback_item fallback_live_viewers)
  case Nil
  then show ?case by simp
next
  case (Cons i rest)
  obtain c1 item' outcome where e: "examine_item env sel cache (queue ! i) = (c1, item', outcome)"
    by (cases "examine_item env sel cache (queue ! i)") auto
  have d: "distinct rest" and ni: "i \<notin> set rest" using Cons.prems(1) by auto
  have st: "status item' = status (fst (finalize_item env sel (queue ! i)))"
    using examine_item_status[of env sel cache "queue ! i"] by (simp add: e)
  define queue1 where "queue1 = queue[i := item']"
  have q1: "length queue1 = length queue" "\<And>j. j \<noteq> i \<Longrightarrow> queue1 ! j = queue ! j"
      "i < length queue \<Longrightarrow> queue1 ! i = item'"
    by (simp_all add: queue1_def)
  have stop: "?case" if r: "queue' = queue1" "chosen \<noteq> None"
  proof -
    have "\<forall>j \<in> set (i # rest). j < length queue \<longrightarrow>
              queue' ! j = queue ! j \<or> status (queue' ! j) = status (fst (finalize_item env sel (queue ! j)))"
      using q1 st r(1) by (metis)
    then show ?thesis using q1 r by auto
  qed
  have go: "?case"
    if r: "scan_items env sel rest queue1 cache1 fb fv = (queue', cache', chosen)" for cache1 fb fv
  proof -
    note ih = Cons.IH[OF d r]
    have len: "length queue' = length queue" using ih q1 by simp
    have at: "queue' ! i = queue1 ! i" using ih ni by simp
    have out: "\<forall>j. j \<notin> set (i # rest) \<longrightarrow> queue' ! j = queue ! j"
      using ih q1(2) by simp
    have here: "i < length queue \<longrightarrow> status (queue' ! i) = status (fst (finalize_item env sel (queue ! i)))"
      using at q1(3) st by simp
    have rest1: "\<forall>j \<in> set rest. j < length queue \<longrightarrow>
              queue' ! j = queue ! j \<or> status (queue' ! j) = status (fst (finalize_item env sel (queue ! j)))"
    proof (intro ballI impI)
      fix j assume j: "j \<in> set rest" "j < length queue"
      then have "j \<noteq> i" using ni by auto
      then have "queue1 ! j = queue ! j" by (rule q1(2))
      then show "queue' ! j = queue ! j \<or> status (queue' ! j) = status (fst (finalize_item env sel (queue ! j)))"
        using ih j q1(1) by (metis)
    qed
    have none: "chosen = None \<longrightarrow>
            (\<forall>j \<in> set rest. j < length queue \<longrightarrow>
               status (queue' ! j) = status (fst (finalize_item env sel (queue ! j))))"
    proof (intro impI ballI)
      fix j assume c: "chosen = None" and j: "j \<in> set rest" "j < length queue"
      then have "j \<noteq> i" using ni by auto
      then have "queue1 ! j = queue ! j" by (rule q1(2))
      then show "status (queue' ! j) = status (fst (finalize_item env sel (queue ! j)))"
        using ih c j q1(1) by (metis)
    qed
    show ?thesis using len out here rest1 none by simp
  qed
  show ?case
  proof (cases outcome)
    case Skipped
    then have "scan_items env sel rest queue1 c1 fallback_item fallback_live_viewers = (queue', cache', chosen)"
      using Cons.prems(2) e by (simp add: queue1_def)
    then show ?thesis by (rule go)
  next
    case (Candidate is_live viewers)
    show ?thesis
    proof (cases is_live)
      case True
      then have "queue' = queue1" "chosen \<noteq> None"
        using Cons.prems(2) e Candidate by (auto simp add: queue1_def)
      then show ?thesis by (rule stop)
    next
      case False
      show ?thesis
      proof (cases "fallback_item = None \<or> viewers > fallback_live_viewers")
        case True
        then have "scan_items env sel rest queue1 c1 (Some i) viewers = (queue', cache', chosen)"
          using Cons.prems(2) e Candidate False by (simp add: queue1_def)
        then show ?thesis by (rule go)
      next
        case f2: False
        then have "scan_items env sel rest queue1 c1 fallback_item fallback_live_viewers = (queue', cache', chosen)"
          using Cons.prems(2) e Candidate False by (auto simp add: queue1_def)
        then show ?thesis by (rule go)
      qed
    qed
  qed
qed

text \<open>
  Claim C1. The finalization of the loop gives an item the status \<open>marked\<close>: \<open>FINISHED\<close>
  when its target is reached or its campaign is fully claimed, else its own status if
  that is \<open>FINISHED\<close> or \<open>EXPIRED\<close>, else \<open>EXPIRED\<close> when its campaign has expired,
  else its own status (\<open>PENDING\<close> for \<open>STOPPED\<close>). The filter of games skips an item
  when specific games are selected, the item is linked to a campaign that is known, and
  the game of that campaign has a name that is not selected. \<open>get_next_queue_item\<close>
  returns an item exactly when for some item of the queue the status \<open>marked\<close> is
  neither \<open>FINISHED\<close> nor \<open>EXPIRED\<close> and the filter does not skip it; the item it
  returns is such an item. The queue keeps its length, an item that the loop has
  examined has the status \<open>marked\<close> afterwards, and when \<open>None\<close> is returned every
  item has.
\<close>

theorem next_queue_item_iff:
  fixes env :: environment and a :: app
  defines "sel \<equiv> selection_of a"
  defines "fully_claimed \<equiv> \<lambda>item. is_progress_campaign_finished
              (resolve_item_progress_campaign item (progress_by_id sel) (progress_by_name sel))"
  defines "campaign_of \<equiv> \<lambda>item.
              resolve_queue_item_campaign item (campaign_by_id sel) (campaign_by_name sel)"
  defines "marked \<equiv> \<lambda>item.
              if item_done item \<or> fully_claimed item then ''FINISHED''
              else if status item \<in> {''FINISHED'', ''EXPIRED''} then status item
              else if is_campaign_expired env (campaign_of item) then ''EXPIRED''
              else if status item = ''STOPPED'' then ''PENDING''
              else status item"
  defines "filtered \<equiv> \<lambda>item.
              auto_filter sel
              \<and> (opt_text (campaign_id item) \<noteq> [] \<or> opt_text (campaign_name item) \<noteq> [])
              \<and> (case campaign_of item of
                    None \<Rightarrow> False
                  | Some c \<Rightarrow> casefold (strip (c_game c)) \<noteq> []
                              \<and> casefold (strip (c_game c)) \<notin> selected_games sel)"
  shows "(snd (get_next_queue_item env a) \<noteq> None \<longleftrightarrow>
            (\<exists>item \<in> set (queue_items a). marked item \<notin> {''FINISHED'', ''EXPIRED''} \<and> \<not> filtered item))
       \<and> (\<forall>k. snd (get_next_queue_item env a) = Some k \<longrightarrow>
              k < length (queue_items a)
              \<and> marked (queue_items a ! k) \<notin> {''FINISHED'', ''EXPIRED''}
              \<and> \<not> filtered (queue_items a ! k))
       \<and> length (queue_items (fst (get_next_queue_item env a))) = length (queue_items a)
       \<and> (\<forall>j < length (queue_items a).
              queue_items (fst (get_next_queue_item env a)) ! j = queue_items a ! j
              \<or> status (queue_items (fst (get_next_queue_item env a)) ! j) = marked (queue_items a ! j))
       \<and> (snd (get_next_queue_item env a) = None \<longrightarrow>
            (\<forall>j < length (queue_items a).
               status (queue_items (fst (get_next_queue_item env a)) ! j) = marked (queue_items a ! j)))"
proof -
  have el: "eligible env sel item \<longleftrightarrow> marked item \<notin> {''FINISHED'', ''EXPIRED''} \<and> \<not> filtered item" for item
    unfolding eligible_iff marked_def filtered_def fully_claimed_def campaign_of_def
    by (auto split: option.splits)
  have mk: "status (fst (finalize_item env sel item)) = marked item" for item
    unfolding finalize_item_status marked_def fully_claimed_def campaign_of_def ..
  obtain ps h1 h2 where
    o: "ordered_items (retry_campaign_hint_id a) (retry_campaign_hint_name a) (queue_items a) = (ps, h1, h2)"
    by (cases "ordered_items (retry_campaign_hint_id a) (retry_campaign_hint_name a) (queue_items a)") auto
  have ps: "distinct ps" "set ps = {0..<length (queue_items a)}"
    using ordered_items_positions[of "retry_campaign_hint_id a" "retry_campaign_hint_name a" "queue_items a"] o
    by auto
  obtain q' c' ch where
    s: "scan_items env sel ps (queue_items a) (channel_live_cache a) None (- 1) = (q', c', ch)"
    by (cases "scan_items env sel ps (queue_items a) (channel_live_cache a) None (- 1)") auto
  have res: "snd (get_next_queue_item env a) = ch" "queue_items (fst (get_next_queue_item env a)) = q'"
    using s by (simp_all add: get_next_queue_item_def o sel_def)
  have "ch \<noteq> None \<longleftrightarrow> (\<exists>i \<in> set ps. eligible env sel (queue_items a ! i))"
    using scan_items_chosen[OF ps(1), of env sel "queue_items a" "channel_live_cache a" None "- 1"] s
    by simp
  also have "\<dots> \<longleftrightarrow> (\<exists>item \<in> set (queue_items a). eligible env sel item)"
  proof
    assume "\<exists>i \<in> set ps. eligible env sel (queue_items a ! i)"
    then obtain i where "i < length (queue_items a)" "eligible env sel (queue_items a ! i)"
      using ps(2) by auto
    then show "\<exists>item \<in> set (queue_items a). eligible env sel item"
      using nth_mem by blast
  next
    assume "\<exists>item \<in> set (queue_items a). eligible env sel item"
    then obtain i where "i < length (queue_items a)" "eligible env sel (queue_items a ! i)"
      by (auto simp: in_set_conv_nth)
    then show "\<exists>i \<in> set ps. eligible env sel (queue_items a ! i)"
      using ps(2) by auto
  qed
  finally have iff: "snd (get_next_queue_item env a) \<noteq> None \<longleftrightarrow>
      (\<exists>item \<in> set (queue_items a). marked item \<notin> {''FINISHED'', ''EXPIRED''} \<and> \<not> filtered item)"
    unfolding res el .
  have chosen: "\<forall>k. snd (get_next_queue_item env a) = Some k \<longrightarrow>
         k < length (queue_items a)
         \<and> marked (queue_items a ! k) \<notin> {''FINISHED'', ''EXPIRED''}
         \<and> \<not> filtered (queue_items a ! k)"
  proof (intro allI impI)
    fix k assume "snd (get_next_queue_item env a) = Some k"
    then have "snd (snd (scan_items env sel ps (queue_items a) (channel_live_cache a) None (- 1))) = Some k"
      using res s by simp
    from scan_items_chosen_eligible[OF ps(1) this]
    have "k < length (queue_items a) \<and> eligible env sel (queue_items a ! k)"
      using ps(2) by auto
    then show "k < length (queue_items a)
         \<and> marked (queue_items a ! k) \<notin> {''FINISHED'', ''EXPIRED''}
         \<and> \<not> filtered (queue_items a ! k)"
      unfolding el .
  qed
  note marks = scan_items_marked[OF ps(1) s, unfolded mk ps(2)]
  have len: "length (queue_items (fst (get_next_queue_item env a))) = length (queue_items a)"
    unfolding res using marks by simp
  have examined: "\<forall>j < length (queue_items a).
              queue_items (fst (get_next_queue_item env a)) ! j = queue_items a ! j
              \<or> status (queue_items (fst (get_next_queue_item env a)) ! j) = marked (queue_items a ! j)"
    unfolding res using marks by simp
  have all: "snd (get_next_queue_item env a) = None \<longrightarrow>
            (\<forall>j < length (queue_items a).
               status (queue_items (fst (get_next_queue_item env a)) ! j) = marked (queue_items a ! j))"
    unfolding res using marks by simp
  show ?thesis using iff chosen len examined all by (intro conjI)
qed

text \<open>
  A queue of four pending items: the first has reached its target, the campaign of the
  second is fully claimed, the campaign of the third has expired, the fourth can be
  watched. The fourth (position 3) is returned and the others are marked. In a queue
  that holds only the first item, \<open>None\<close> is returned and the item is \<open>FINISHED\<close>.
\<close>

theorem next_queue_item_iff_witness:
  "snd (get_next_queue_item 
     \<lparr>live_status_of = (\<lambda>slug. Inl ValueError), clock = 0, ends_at_reached = (\<lambda>stamp. False)\<rparr> 
     \<lparr>queue_items =
        [\<lparr>url = ''https://kick.com/a'', minutes_target = 1, elapsed_seconds = 60, status = ''PENDING'',
          campaign_id = None, campaign_name = None, category_id = None, notes = []\<rparr>,
         \<lparr>url = ''https://kick.com/b'', minutes_target = 0, elapsed_seconds = 0, status = ''PENDING'',
          campaign_id = Some ''p'', campaign_name = Some ''P'', category_id = None, notes = []\<rparr>,
         \<lparr>url = ''https://kick.com/c'', minutes_target = 0, elapsed_seconds = 0, status = ''PENDING'',
          campaign_id = Some ''x'', campaign_name = Some ''X'', category_id = None, notes = []\<rparr>,
         \<lparr>url = ''https://kick.com/d'', minutes_target = 0, elapsed_seconds = 0, status = ''PENDING'',
          campaign_id = Some ''y'', campaign_name = Some ''Y'', category_id = None, notes = []\<rparr>],
      campaigns =
        [\<lparr>c_id = ''x'', c_name = ''X'', c_game = ''G'', c_game_slug = [], c_game_image = [],
          c_category_id = None, c_status = ''expired'', c_starts_at = JNull, c_ends_at = JNull,
          c_rewards = [], c_channels = [], c_progress_status = ''not_started'', c_progress_units = 0,
          c_raw = []\<rparr>,
         \<lparr>c_id = ''y'', c_name = ''Y'', c_game = ''G'', c_game_slug = [], c_game_image = [],
          c_category_id = None, c_status = ''active'', c_starts_at = JNull, c_ends_at = JNull,
          c_rewards = [], c_channels = [], c_progress_status = ''not_started'', c_progress_units = 0,
          c_raw = []\<rparr>],
      progress =
        [\<lparr>p_id = ''p'', p_name = ''P'', p_status = ''in progress'', p_progress_units = 2,
          p_category_name = ''G'',
          p_rewards = [\<lparr>pr_id = ''r'', pr_claimed = True, pr_required_units = 2, pr_name = ''R''\<rparr>]\<rparr>],
      preferred_games_cached = [],
      retry_campaign_hint_id = None, retry_campaign_hint_name = None,
      channel_live_cache = Map.empty, force_switch_urls = {}\<rparr>) = Some 3
   \<and> map status (queue_items (fst (get_next_queue_item 
     \<lparr>live_status_of = (\<lambda>slug. Inl ValueError), clock = 0, ends_at_reached = (\<lambda>stamp. False)\<rparr> 
     \<lparr>queue_items =
        [\<lparr>url = ''https://kick.com/a'', minutes_target = 1, elapsed_seconds = 60, status = ''PENDING'',
          campaign_id = None, campaign_name = None, category_id = None, notes = []\<rparr>,
         \<lparr>url = ''https://kick.com/b'', minutes_target = 0, elapsed_seconds = 0, status = ''PENDING'',
          campaign_id = Some ''p'', campaign_name = Some ''P'', category_id = None, notes = []\<rparr>,
         \<lparr>url = ''https://kick.com/c'', minutes_target = 0, elapsed_seconds = 0, status = ''PENDING'',
          campaign_id = Some ''x'', campaign_name = Some ''X'', category_id = None, notes = []\<rparr>,
         \<lparr>url = ''https://kick.com/d'', minutes_target = 0, elapsed_seconds = 0, status = ''PENDING'',
          campaign_id = Some ''y'', campaign_name = Some ''Y'', category_id = None, notes = []\<rparr>],
      campaigns =
        [\<lparr>c_id = ''x'', c_name = ''X'', c_game = ''G'', c_game_slug = [], c_game_image = [],
          c_category_id = None, c_status = ''expired'', c_starts_at = JNull, c_ends_at = JNull,
          c_rewards = [], c_channels = [], c_progress_status = ''not_started'', c_progress_units = 0,
          c_raw = []\<rparr>,
         \<lparr>c_id = ''y'', c_name = ''Y'', c_game = ''G'', c_game_slug = [], c_game_image = [],
          c_category_id = None, c_status = ''active'', c_starts_at = JNull, c_ends_at = JNull,
          c_rewards = [], c_channels = [], c_progress_status = ''not_started'', c_progress_units = 0,
          c_raw = []\<rparr>],
      progress =
        [\<lparr>p_id = ''p'', p_name = ''P'', p_status = ''in progress'', p_progress_units = 2,
          p_category_name = ''G'',
          p_rewards = [\<lparr>pr_id = ''r'', pr_claimed = True, pr_required_units = 2, pr_name = ''R''\<rparr>]\<rparr>],
      preferred_games_cached = [],
      retry_campaign_hint_id = None, retry_campaign_hint_name = None,
      channel_live_cache = Map.empty, force_switch_urls = {}\<rparr>))) =
       [''FINISHED'', ''FINISHED'', ''EXPIRED'', ''PENDING'']
   \<and> snd (get_next_queue_item 
     \<lparr>live_status_of = (\<lambda>slug. Inl ValueError), clock = 0, ends_at_reached = (\<lambda>stamp. False)\<rparr> 
     \<lparr>queue_items =
        [\<lparr>url = ''https://kick.com/a'', minutes_target = 1, elapsed_seconds = 60, status = ''PENDING'',
          campaign_id = None, campaign_name = None, category_id = None, notes = []\<rparr>],
      campaigns =
        [\<lparr>c_id = ''x'', c_name = ''X'', c_game = ''G'', c_game_slug = [], c_game_image = [],
          c_category_id = None, c_status = ''expired'', c_starts_at = JNull, c_ends_at = JNull,
          c_rewards = [], c_channels = [], c_progress_status = ''not_started'', c_progress_units = 0,
          c_raw = []\<rparr>,
         \<lparr>c_id = ''y'', c_name = ''Y'', c_game = ''G'', c_game_slug = [], c_game_image = [],
          c_category_id = None, c_status = ''active'', c_starts_at = JNull, c_ends_at = JNull,
          c_rewards = [], c_channels = [], c_progress_status = ''not_started'', c_progress_units = 0,
          c_raw = []\<rparr>],
      progress =
        [\<lparr>p_id = ''p'', p_name = ''P'', p_status = ''in progress'', p_progress_units = 2,
          p_category_name = ''G'',
          p_rewards = [\<lparr>pr_id = ''r'', pr_claimed = True, pr_required_units = 2, pr_name = ''R''\<rparr>]\<rparr>],
      preferred_games_cached = [],
      retry_campaign_hint_id = None, retry_campaign_hint_name = None,
      channel_live_cache = Map.empty, force_switch_urls = {}\<rparr>) = None
   \<and> status (queue_items (fst (get_next_queue_item 
     \<lparr>live_status_of = (\<lambda>slug. Inl ValueError), clock = 0, ends_at_reached = (\<lambda>stamp. False)\<rparr> 
     \<lparr>queue_items =
        [\<lparr>url = ''https://kick.com/a'', minutes_target = 1, elapsed_seconds = 60, status = ''PENDING'',
          campaign_id = None, campaign_name = None, category_id = None, notes = []\<rparr>],
      campaigns =
        [\<lparr>c_id = ''x'', c_name = ''X'', c_game = ''G'', c_game_slug = [], c_game_image = [],
          c_category_id = None, c_status = ''expired'', c_starts_at = JNull, c_ends_at = JNull,
          c_rewards = [], c_channels = [], c_progress_status = ''not_started'', c_progress_units = 0,
          c_raw = []\<rparr>,
         \<lparr>c_id = ''y'', c_name = ''Y'', c_game = ''G'', c_game_slug = [], c_game_image = [],
          c_category_id = None, c_status = ''active'', c_starts_at = JNull, c_ends_at = JNull,
          c_rewards = [], c_channels = [], c_progress_status = ''not_started'', c_progress_units = 0,
          c_raw = []\<rparr>],
      progress =
        [\<lparr>p_id = ''p'', p_name = ''P'', p_status = ''in progress'', p_progress_units = 2,
          p_category_name = ''G'',
          p_rewards = [\<lparr>pr_id = ''r'', pr_claimed = True, pr_required_units = 2, pr_name = ''R''\<rparr>]\<rparr>],
      preferred_games_cached = [],
      retry_campaign_hint_id = None, retry_campaign_hint_name = None,
      channel_live_cache = Map.empty, force_switch_urls = {}\<rparr>)) ! 0) = ''FINISHED''"
proof -
  let ?env = "\<lparr>live_status_of = (\<lambda>slug. Inl ValueError), clock = 0, ends_at_reached = (\<lambda>stamp. False)\<rparr>"
  let ?a = "\<lparr>queue_items =
        [\<lparr>url = ''https://kick.com/a'', minutes_target = 1, elapsed_seconds = 60, status = ''PENDING'',
          campaign_id = None, campaign_name = None, category_id = None, notes = []\<rparr>,
         \<lparr>url = ''https://kick.com/b'', minutes_target = 0, elapsed_seconds = 0, status = ''PENDING'',
          campaign_id = Some ''p'', campaign_name = Some ''P'', category_id = None, notes = []\<rparr>,
         \<lparr>url = ''https://kick.com/c'', minutes_target = 0, elapsed_seconds = 0, status = ''PENDING'',
          campaign_id = Some ''x'', campaign_name = Some ''X'', category_id = None, notes = []\<rparr>,
         \<lparr>url = ''https://kick.com/d'', minutes_target = 0, elapsed_seconds = 0, status = ''PENDING'',
          campaign_id = Some ''y'', campaign_name = Some ''Y'', category_id = None, notes = []\<rparr>],
      campaigns =
        [\<lparr>c_id = ''x'', c_name = ''X'', c_game = ''G'', c_game_slug = [], c_game_image = [],
          c_category_id = None, c_status = ''expired'', c_starts_at = JNull, c_ends_at = JNull,
          c_rewards = [], c_channels = [], c_progress_status = ''not_started'', c_progress_units = 0,
          c_raw = []\<rparr>,
         \<lparr>c_id = ''y'', c_name = ''Y'', c_game = ''G'', c_game_slug = [], c_game_image = [],
          c_category_id = None, c_status = ''active'', c_starts_at = JNull, c_ends_at = JNull,
          c_rewards = [], c_channels = [], c_progress_status = ''not_started'', c_progress_units = 0,
          c_raw = []\<rparr>],
      progress =
        [\<lparr>p_id = ''p'', p_name = ''P'', p_status = ''in progress'', p_progress_units = 2,
          p_category_name = ''G'',
          p_rewards = [\<lparr>pr_id = ''r'', pr_claimed = True, pr_required_units = 2, pr_name = ''R''\<rparr>]\<rparr>],
      preferred_games_cached = [],
      retry_campaign_hint_id = None, retry_campaign_hint_name = None,
      channel_live_cache = Map.empty, force_switch_urls = {}\<rparr>"
  let ?b = "\<lparr>queue_items =
        [\<lparr>url = ''https://kick.com/a'', minutes_target = 1, elapsed_seconds = 60, status = ''PENDING'',
          campaign_id = None, campaign_name = None, category_id = None, notes = []\<rparr>],
      campaigns =
        [\<lparr>c_id = ''x'', c_name = ''X'', c_game = ''G'', c_game_slug = [], c_game_image = [],
          c_category_id = None, c_status = ''expired'', c_starts_at = JNull, c_ends_at = JNull,
          c_rewards = [], c_channels = [], c_progress_status = ''not_started'', c_progress_units = 0,
          c_raw = []\<rparr>,
         \<lparr>c_id = ''y'', c_name = ''Y'', c_game = ''G'', c_game_slug = [], c_game_image = [],
          c_category_id = None, c_status = ''active'', c_starts_at = JNull, c_ends_at = JNull,
          c_rewards = [], c_channels = [], c_progress_status = ''not_started'', c_progress_units = 0,
          c_raw = []\<rparr>],
      progress =
        [\<lparr>p_id = ''p'', p_name = ''P'', p_status = ''in progress'', p_progress_units = 2,
          p_category_name = ''G'',
          p_rewards = [\<lparr>pr_id = ''r'', pr_claimed = True, pr_required_units = 2, pr_name = ''R''\<rparr>]\<rparr>],
      preferred_games_cached = [],
      retry_campaign_hint_id = None, retry_campaign_hint_name = None,
      channel_live_cache = Map.empty, force_switch_urls = {}\<rparr>"
  note t = next_queue_item_iff[of ?env ?a]
  note chosen = t[THEN conjunct2, THEN conjunct1, THEN spec, THEN mp]
  have some: "snd (get_next_queue_item ?env ?a) \<noteq> None"
    by (rule t[THEN conjunct1, THEN iffD2]) code_simp
  have not0: "snd (get_next_queue_item ?env ?a) \<noteq> Some 0"
    by (rule contrapos_nn[OF _ chosen[of 0]]) code_simp
  have not1: "snd (get_next_queue_item ?env ?a) \<noteq> Some 1"
    by (rule contrapos_nn[OF _ chosen[of 1]]) code_simp
  have not2: "snd (get_next_queue_item ?env ?a) \<noteq> Some 2"
    by (rule contrapos_nn[OF _ chosen[of 2]]) code_simp
  have len: "length (queue_items ?a) = 4" by simp
  obtain k where k: "snd (get_next_queue_item ?env ?a) = Some k" using some by blast
  have "k < length (queue_items ?a)"
    by (rule chosen[OF k, THEN conjunct1])
  then have "k < 4" unfolding len .
  moreover have "k \<noteq> 0" "k \<noteq> 1" "k \<noteq> 2" using not0 not1 not2 k by auto
  ultimately have "k = 3" by simp
  then have third: "snd (get_next_queue_item ?env ?a) = Some 3" using k by simp
  have marked: "map status (queue_items (fst (get_next_queue_item ?env ?a))) =
       [''FINISHED'', ''FINISHED'', ''EXPIRED'', ''PENDING'']"
    by code_simp
  note t2 = next_queue_item_iff[of ?env ?b]
  have none: "snd (get_next_queue_item ?env ?b) = None"
    by (rule notnotD, rule contrapos_nn[OF _ t2[THEN conjunct1, THEN iffD1]]) code_simp
  have i0: "0 < length (queue_items ?b)" by simp
  have m0: "(if item_done (queue_items ?b ! 0)
          \<or> is_progress_campaign_finished
               (resolve_item_progress_campaign (queue_items ?b ! 0)
                  (progress_by_id (selection_of ?b)) (progress_by_name (selection_of ?b)))
       then ''FINISHED''
       else if status (queue_items ?b ! 0) \<in> {''FINISHED'', ''EXPIRED''} then status (queue_items ?b ! 0)
       else if is_campaign_expired ?env
                 (resolve_queue_item_campaign (queue_items ?b ! 0)
                    (campaign_by_id (selection_of ?b)) (campaign_by_name (selection_of ?b)))
       then ''EXPIRED''
       else if status (queue_items ?b ! 0) = ''STOPPED'' then ''PENDING''
       else status (queue_items ?b ! 0)) = ''FINISHED''"
    by code_simp
  have fin: "status (queue_items (fst (get_next_queue_item ?env ?b)) ! 0) = ''FINISHED''"
    using t2[THEN conjunct2, THEN conjunct2, THEN conjunct2, THEN conjunct2, THEN mp, OF none,
             THEN spec, of 0, THEN mp, OF i0]
    unfolding m0 .
  show ?thesis by (intro conjI third marked none fin)
qed

section \<open>The order of the iteration under a retry hint\<close>





end
